theory Spec2Isabelle
  imports Complex_Main
begin

section \<open>The exam session controller of ExamClient.tsx\<close>

text \<open>
  A shallow embedding of \<^verbatim>\<open>src/components/exam/ExamClient.tsx\<close>. The React component
  is a record of its state cells (every \<^verbatim>\<open>useState\<close> and \<^verbatim>\<open>useRef\<close>) together with the
  parts of the browser it reads and writes: the two storages, the router, the toasts,
  the fullscreen element, the interval timer and the document listeners. Every handler
  of the source is a function from state to state; an event of the browser or of the
  user is a constructor of \<open>event\<close>, and \<open>step\<close> delivers it to the handler the source
  registers for it, under the guard the source puts on the registration.
\<close>

subsection \<open>Constants\<close>

definition EXAM_DURATION :: int where
  "EXAM_DURATION = 2 * 60 * 60"

definition MAX_VIOLATIONS :: int where
  "MAX_VIOLATIONS = 3"

definition slugToFolderMap :: "(string \<times> string) list" where
  "slugToFolderMap =
    [(''computer-science'', ''CSE''),
     (''civil-engineering'', ''CIVIL''),
     (''electronics-communication'', ''ECE''),
     (''electrical-electronics'', ''EEE''),
     (''mechanical-engineering'', ''MECH''),
     (''pharmacy'', ''PHARMACY''),
     (''chemical-engineering'', ''CHEM''),
     (''metallurgical-engineering'', ''MET''),
     (''bsc-mathematics'', ''BSCMATHS'')]"

subsection \<open>Data\<close>

text \<open>
  Modelled from the spec: the type \<^verbatim>\<open>Question\<close> is imported from \<^verbatim>\<open>@/lib/types\<close>, which is
  not among the sources. The spec's QuestionRecord has an id, a topic, the question
  text, the ordered options and an opaque correct answer; the component reads the first
  four. The field \<^verbatim>\<open>id\<close> is named \<open>qid\<close> here, since \<open>id\<close> is HOL's identity function.
  \<^verbatim>\<open>AnswerSheet\<close> (an object from question id to the chosen option) and
  \<^verbatim>\<open>MarkedQuestions\<close> (an array of question ids) come from the same file.
\<close>

record Question =
  qid :: int
  topic :: string
  question :: string
  options :: "string list"
  correctAnswer :: string

type_synonym AnswerSheet = "int \<rightharpoonup> string"

type_synonym MarkedQuestions = "int list"

text \<open>The object \<open>handleSubmit\<close> stores under \<^verbatim>\<open>lastExamData\<close>.\<close>

record ExamData =
  answers_data :: AnswerSheet
  questions_data :: "Question list"
  examName_data :: string
  startedAt_data :: string
  submittedAt_data :: string

text \<open>The object the offline branch of the loader reads.\<close>

record OfflineData =
  questions_off :: "Question list"
  examName_off :: string
  year_off :: string

text \<open>
  A storage slot holds a string, as in the browser. What \<^verbatim>\<open>JSON.stringify\<close>,
  \<^verbatim>\<open>JSON.parse\<close> and \<^verbatim>\<open>fetch\<close> compute is not the component's business: they are
  taken as parameters, collected in \<open>Browser\<close>. A parse that throws, or a response
  whose body is not JSON, is \<open>None\<close>.
\<close>

type_synonym storage = "string \<rightharpoonup> string"

datatype fetch_result =
    NetworkError
  | Response bool int "Question list option"

record Browser =
  JSON_stringify :: "ExamData \<Rightarrow> string"
  JSON_parse_questions :: "string \<Rightarrow> Question list option"
  JSON_parse_offline :: "string \<Rightarrow> OfflineData option"
  fetch :: "string \<Rightarrow> fetch_result"

datatype js_error = SyntaxError | TypeError

record ExamState =
  questions :: "Question list option"
  currentQuestionIndex :: int
  answers :: AnswerSheet
  markedForReview :: MarkedQuestions
  timeLeft :: int
  isSubmitDialogOpen :: bool
  isExitDialogOpen :: bool
  examName :: string
  isSubmitting :: bool
  startedAt :: string
  violationCount :: int
  isViolationDialogOpen :: bool
  violationMessage :: string
  fullscreenElement :: bool
  localStorage :: storage
  sessionStorage :: storage
  setItemLog :: "(string \<times> string) list"
  timeouts :: "(nat \<times> string) list"
  routerPush :: "string list"
  toasts :: "string list"
  exitFullscreenCalls :: nat
  requestFullscreenCalls :: nat
  timerInstalled :: bool
  listenersInstalled :: bool
  uncaught :: "js_error list"

text \<open>
  The state cells as the hooks initialise them (lines 56 to 70). \<open>start\<close> is
  \<^verbatim>\<open>new Date().toISOString()\<close> at the first render; the storages and the fullscreen
  element are what the browser holds at that moment.
\<close>

definition initialState :: "string \<Rightarrow> bool \<Rightarrow> storage \<Rightarrow> storage \<Rightarrow> ExamState" where
  "initialState start fs ls ss =
    \<lparr> questions = None,
      currentQuestionIndex = 0,
      answers = Map.empty,
      markedForReview = [],
      timeLeft = EXAM_DURATION,
      isSubmitDialogOpen = False,
      isExitDialogOpen = False,
      examName = ''ECET Exam'',
      isSubmitting = False,
      startedAt = start,
      violationCount = 0,
      isViolationDialogOpen = False,
      violationMessage = [],
      fullscreenElement = fs,
      localStorage = ls,
      sessionStorage = ss,
      setItemLog = [],
      timeouts = [],
      routerPush = [],
      toasts = [],
      exitFullscreenCalls = 0,
      requestFullscreenCalls = 0,
      timerInstalled = False,
      listenersInstalled = False,
      uncaught = [] \<rparr>"

subsection \<open>Effects on the browser\<close>

definition toast :: "string \<Rightarrow> ExamState \<Rightarrow> ExamState" where
  "toast title s = s\<lparr>toasts := toasts s @ [title]\<rparr>"

definition localStorage_setItem :: "string \<Rightarrow> string \<Rightarrow> ExamState \<Rightarrow> ExamState" where
  "localStorage_setItem k v s =
    s\<lparr>localStorage := (localStorage s)(k \<mapsto> v), setItemLog := setItemLog s @ [(k, v)]\<rparr>"

definition localStorage_removeItem :: "string \<Rightarrow> ExamState \<Rightarrow> ExamState" where
  "localStorage_removeItem k s = s\<lparr>localStorage := (localStorage s)(k := None)\<rparr>"

definition sessionStorage_removeItem :: "string \<Rightarrow> ExamState \<Rightarrow> ExamState" where
  "sessionStorage_removeItem k s = s\<lparr>sessionStorage := (sessionStorage s)(k := None)\<rparr>"

definition router_push :: "string \<Rightarrow> ExamState \<Rightarrow> ExamState" where
  "router_push path s = s\<lparr>routerPush := routerPush s @ [path]\<rparr>"

text \<open>\<^verbatim>\<open>setTimeout(() => router.replace(path), ms)\<close>: the navigation is recorded as scheduled.\<close>

definition setTimeout_replace :: "nat \<Rightarrow> string \<Rightarrow> ExamState \<Rightarrow> ExamState" where
  "setTimeout_replace ms path s = s\<lparr>timeouts := timeouts s @ [(ms, path)]\<rparr>"

subsection \<open>Numbers in template literals\<close>

definition digit :: "nat \<Rightarrow> char" where
  "digit n = ''0123456789'' ! (n mod 10)"

function digits :: "nat \<Rightarrow> string" where
  "digits n = (if n < 10 then [digit n] else digits (n div 10) @ [digit n])"
  by pat_completeness auto
termination
  by (relation "measure (\<lambda>n. n)") auto

definition numberToString :: "int \<Rightarrow> string" where
  "numberToString i = (if i < 0 then CHR ''-'' # digits (nat (- i)) else digits (nat i))"

subsection \<open>The submission protocol (lines 72 to 92)\<close>

definition handleSubmit :: "Browser \<Rightarrow> string \<Rightarrow> ExamState \<Rightarrow> ExamState" where
  "handleSubmit B now s =
    (if isSubmitting s then s
     else
       let s1 = s\<lparr>isSubmitting := True\<rparr>;
           s2 = (if fullscreenElement s1
                 then s1\<lparr>exitFullscreenCalls := exitFullscreenCalls s1 + 1\<rparr> else s1);
           s3 = (case questions s2 of
                   None \<Rightarrow> s2
                 | Some qs \<Rightarrow>
                     localStorage_setItem ''lastExamData''
                       (JSON_stringify B
                          \<lparr> answers_data = answers s2,
                            questions_data = qs,
                            examName_data = examName s2,
                            startedAt_data = startedAt s2,
                            submittedAt_data = now \<rparr>) s2)
       in setTimeout_replace 100 ''/results'' s3)"

subsection \<open>The violation monitor (lines 94 to 108)\<close>

definition handleViolation :: "Browser \<Rightarrow> string \<Rightarrow> string \<Rightarrow> ExamState \<Rightarrow> ExamState" where
  "handleViolation B now message s =
    (let s1 = s\<lparr>violationCount := violationCount s + 1\<rparr> in
     if violationCount s1 \<ge> MAX_VIOLATIONS
     then handleSubmit B now (toast ''Exam Terminated'' s1)
     else s1\<lparr>violationMessage :=
                message @ ''. You have '' @ numberToString (MAX_VIOLATIONS - violationCount s1)
                  @ '' warning(s) left.'',
              isViolationDialogOpen := True\<rparr>)"

subsection \<open>Loading the questions (lines 110 to 172)\<close>

record SearchParams =
  customExamKey :: "string option"
  examSlug :: "string option"
  year :: "string option"
  offlineTestKey :: "string option"
  examBoard :: "string option"
  examNameParam :: "string option"

text \<open>
  \<^verbatim>\<open>searchParams.get\<close> and \<^verbatim>\<open>getItem\<close> return a string or null; \<^verbatim>\<open>if (x)\<close> holds for a
  string that is not empty, and \<^verbatim>\<open>x || d\<close> is \<open>d\<close> exactly when it does not hold.
\<close>

definition truthy :: "string option \<Rightarrow> bool" where
  "truthy x = (case x of None \<Rightarrow> False | Some v \<Rightarrow> v \<noteq> [])"

definition orElse :: "string option \<Rightarrow> string \<Rightarrow> string" where
  "orElse x d = (case x of None \<Rightarrow> d | Some v \<Rightarrow> if v = [] then d else v)"

text \<open>\<^verbatim>\<open>toUpperCase\<close> on the ASCII letters, which is what slugs and board names are made of.\<close>

definition upperChar :: "char \<Rightarrow> char" where
  "upperChar c =
    (let n = (of_char c :: nat) in if 97 \<le> n \<and> n \<le> 122 then char_of (n - 32) else c)"

definition toUpperCase :: "string \<Rightarrow> string" where
  "toUpperCase = map upperChar"

text \<open>
  The three sources, each up to the point where \<^verbatim>\<open>loadedQuestions\<close> is assigned. The
  result is \<open>Some loadedQuestions\<close> when control reaches line 166, and \<open>None\<close> when the
  function has returned early (after a toast and a \<^verbatim>\<open>router.push\<close>) or a parse has
  thrown inside the async function, which nothing catches.
\<close>

definition loadCustom :: "Browser \<Rightarrow> string \<Rightarrow> ExamState \<Rightarrow> Question list option \<times> ExamState" where
  "loadCustom B key s =
    (let customQuestionsStr = sessionStorage s key in
     if truthy customQuestionsStr then
       (case JSON_parse_questions B (orElse customQuestionsStr []) of
          None \<Rightarrow> (None, s\<lparr>uncaught := uncaught s @ [SyntaxError]\<rparr>)
        | Some loaded \<Rightarrow>
            (Some loaded,
             sessionStorage_removeItem ''customExamName''
               (sessionStorage_removeItem key
                 (s\<lparr>examName := orElse (sessionStorage s ''customExamName'') ''AI Custom Test''\<rparr>))))
     else (None, router_push ''/exams'' (toast ''Error'' s)))"

definition loadOffline :: "Browser \<Rightarrow> string \<Rightarrow> ExamState \<Rightarrow> Question list option \<times> ExamState" where
  "loadOffline B key s =
    (let offlineDataRaw = localStorage s key in
     if truthy offlineDataRaw then
       (case JSON_parse_offline B (orElse offlineDataRaw []) of
          None \<Rightarrow> (None, s\<lparr>uncaught := uncaught s @ [SyntaxError]\<rparr>)
        | Some offlineData \<Rightarrow>
            (Some (questions_off offlineData),
             s\<lparr>examName :=
                 examName_off offlineData @ '' - '' @ year_off offlineData @ '' (Offline)''\<rparr>))
     else (None, router_push ''/exams/offline'' (toast ''Error'' s)))"

definition loadRemote ::
  "Browser \<Rightarrow> SearchParams \<Rightarrow> string \<Rightarrow> string \<Rightarrow> string \<Rightarrow> ExamState
    \<Rightarrow> Question list option \<times> ExamState" where
  "loadRemote B p slug yr board s =
    (let s1 = s\<lparr>examName := orElse (examNameParam p) ''ECET Exam''\<rparr>;
         examBoardFolder = toUpperCase board;
         folderName = orElse (map_of slugToFolderMap slug) (toUpperCase slug);
         filePath = ''/datasets/'' @ examBoardFolder @ ''/'' @ folderName @ ''/'' @ yr @ ''.json''
     in case fetch B filePath of
          Response True status (Some loaded) \<Rightarrow> (Some loaded, s1)
        | _ \<Rightarrow> (None, router_push ''/exams'' (toast ''Error Loading Questions'' s1)))"

definition resolveQuestions ::
  "Browser \<Rightarrow> SearchParams \<Rightarrow> ExamState \<Rightarrow> Question list option \<times> ExamState" where
  "resolveQuestions B p s =
    (if truthy (customExamKey p) then loadCustom B (orElse (customExamKey p) []) s
     else if truthy (offlineTestKey p) then loadOffline B (orElse (offlineTestKey p) []) s
     else if truthy (examSlug p) \<and> truthy (year p) \<and> truthy (examBoard p)
       then loadRemote B p (orElse (examSlug p) []) (orElse (year p) []) (orElse (examBoard p) []) s
     else (None, router_push ''/exams'' (toast ''Error'' s)))"

definition loadQuestions :: "Browser \<Rightarrow> SearchParams \<Rightarrow> ExamState \<Rightarrow> ExamState" where
  "loadQuestions B p s =
    (case resolveQuestions B p (localStorage_removeItem ''lastExamData'' s) of
       (None, s1) \<Rightarrow> s1
     | (Some loadedQuestions, s1) \<Rightarrow>
         if length loadedQuestions > 0 then s1\<lparr>questions := Some loadedQuestions\<rparr> else s1)"

text \<open>
  \<^verbatim>\<open>shuffleArray\<close> (lines 39 to 48): every question is paired with a draw of
  \<^verbatim>\<open>Math.random()\<close>, the pairs are sorted by the draw (the sort of an array is stable)
  and the draws are dropped. \<open>random i\<close> is the draw for the element at index \<open>i\<close>.
  No function of the component calls it.
\<close>

definition shuffleArray :: "(nat \<Rightarrow> real) \<Rightarrow> Question list \<Rightarrow> Question list" where
  "shuffleArray random array =
    map fst (sort_key snd (zip array (map random [0..<length array])))"

subsection \<open>The timer and the listeners (lines 174 to 209)\<close>

text \<open>
  The effect installs nothing while \<open>questions\<close> is null. Its cleanup clears the interval
  and removes both listeners; React runs the cleanup and the effect again after a render
  in which \<open>handleSubmit\<close> has a new identity, that is after \<open>answers\<close>, \<open>questions\<close> or
  \<open>examName\<close> was set.
\<close>

definition examEffect :: "ExamState \<Rightarrow> ExamState" where
  "examEffect s =
    (case questions s of
       None \<Rightarrow> s
     | Some qs \<Rightarrow> s\<lparr>timerInstalled := True, listenersInstalled := True\<rparr>)"

definition examEffectCleanup :: "ExamState \<Rightarrow> ExamState" where
  "examEffectCleanup s = s\<lparr>timerInstalled := False, listenersInstalled := False\<rparr>"

definition rerunEffect :: "ExamState \<Rightarrow> ExamState" where
  "rerunEffect s = examEffect (examEffectCleanup s)"

text \<open>The callback of the interval (lines 178 to 186), with the state update it returns.\<close>

definition tick :: "Browser \<Rightarrow> string \<Rightarrow> ExamState \<Rightarrow> ExamState" where
  "tick B now s =
    (if timeLeft s \<le> 1
     then (handleSubmit B now (toast ''Time's Up!'' (s\<lparr>timerInstalled := False\<rparr>)))\<lparr>timeLeft := 0\<rparr>
     else s\<lparr>timeLeft := timeLeft s - 1\<rparr>)"

definition handleFullscreenChange :: "Browser \<Rightarrow> string \<Rightarrow> ExamState \<Rightarrow> ExamState" where
  "handleFullscreenChange B now s =
    (if \<not> fullscreenElement s then handleViolation B now ''You have exited fullscreen mode'' s
     else s)"

definition handleVisibilityChange :: "Browser \<Rightarrow> string \<Rightarrow> bool \<Rightarrow> ExamState \<Rightarrow> ExamState" where
  "handleVisibilityChange B now hidden s =
    (if hidden then handleViolation B now ''You have switched to another tab or window'' s
     else s)"

subsection \<open>Answers, review marks and navigation (lines 211 to 233, 325 to 330)\<close>

definition handleAnswerSelect :: "int \<Rightarrow> string \<Rightarrow> ExamState \<Rightarrow> ExamState" where
  "handleAnswerSelect questionId answer s = s\<lparr>answers := (answers s)(questionId \<mapsto> answer)\<rparr>"

definition handleMarkForReview :: "int \<Rightarrow> ExamState \<Rightarrow> ExamState" where
  "handleMarkForReview questionId s =
    s\<lparr>markedForReview :=
        (if questionId \<in> set (markedForReview s)
         then filter (\<lambda>i. i \<noteq> questionId) (markedForReview s)
         else markedForReview s @ [questionId])\<rparr>"

text \<open>
  \<^verbatim>\<open>questions[currentQuestionIndex]\<close>: undefined out of range, and reading \<^verbatim>\<open>.id\<close> of it
  throws a TypeError.
\<close>

definition currentQuestion :: "ExamState \<Rightarrow> Question option" where
  "currentQuestion s =
    (case questions s of
       None \<Rightarrow> None
     | Some qs \<Rightarrow>
         if 0 \<le> currentQuestionIndex s \<and> currentQuestionIndex s < int (length qs)
         then Some (qs ! nat (currentQuestionIndex s)) else None)"

text \<open>Lines 224 to 226: a copy of \<open>answers\<close> without the key.\<close>

definition deleteAnswer :: "int \<Rightarrow> ExamState \<Rightarrow> ExamState" where
  "deleteAnswer questionId s = s\<lparr>answers := (answers s)(questionId := None)\<rparr>"

definition clearResponse :: "ExamState \<Rightarrow> ExamState" where
  "clearResponse s =
    (case questions s of
       None \<Rightarrow> s
     | Some qs \<Rightarrow>
         (case currentQuestion s of
            None \<Rightarrow> s\<lparr>uncaught := uncaught s @ [TypeError]\<rparr>
          | Some q \<Rightarrow> deleteAnswer (qid q) s))"

definition requestFullscreen :: "ExamState \<Rightarrow> ExamState" where
  "requestFullscreen s = s\<lparr>requestFullscreenCalls := requestFullscreenCalls s + 1\<rparr>"

definition prevQuestion :: "ExamState \<Rightarrow> ExamState" where
  "prevQuestion s = s\<lparr>currentQuestionIndex := max 0 (currentQuestionIndex s - 1)\<rparr>"

definition nextQuestion :: "ExamState \<Rightarrow> ExamState" where
  "nextQuestion s =
    (case questions s of
       None \<Rightarrow> s
     | Some qs \<Rightarrow>
         s\<lparr>currentQuestionIndex := min (int (length qs) - 1) (currentQuestionIndex s + 1)\<rparr>)"

subsection \<open>What is on the screen (lines 235 to 245)\<close>

datatype screen = LoadingScreen | ExamScreen

definition render :: "ExamState \<Rightarrow> screen" where
  "render s = (case questions s of None \<Rightarrow> LoadingScreen | Some qs \<Rightarrow> ExamScreen)"

subsection \<open>Events\<close>

text \<open>
  The events the component reacts to once it is mounted. \<open>Tick\<close> is the interval firing;
  \<open>FullscreenChange b\<close> and \<open>VisibilityChange h\<close> are the document's events, with the
  document's state after the change (\<open>b\<close>: there is a fullscreen element, \<open>h\<close>: the page
  is hidden). The others are clicks: \<open>ClickOption i\<close> on the \<open>i\<close>-th radio item of the
  current question, the buttons of the card footer, the header's exit button and the
  buttons of the three dialogs. \<open>PaletteGoto i\<close> and \<open>OpenSubmitDialog\<close> are the two
  setters handed to the child component \<^verbatim>\<open>QuestionPalette\<close>.
\<close>

datatype event =
    Tick
  | FullscreenChange bool
  | VisibilityChange bool
  | ClickOption nat
  | ClickMark
  | ClickClear
  | ClickPrev
  | ClickNext
  | PaletteGoto nat
  | OpenSubmitDialog
  | CancelSubmit
  | ConfirmSubmit
  | OpenExitDialog
  | CancelExit
  | ConfirmExit
  | AcknowledgeViolation

text \<open>
  A click reaches a handler only when its control is on the screen: the exam screen is
  rendered when \<open>questions\<close> is set and the current question exists (line 245 reads its
  id), a disabled button does not fire, and the buttons of a dialog exist while the
  dialog is open. Modelled from the spec: \<^verbatim>\<open>QuestionPalette\<close> is not among the sources; it
  is taken to select one of the session's questions by its index.
\<close>

definition uiEvent :: "Browser \<Rightarrow> string \<Rightarrow> event \<Rightarrow> Question list \<Rightarrow> Question \<Rightarrow> ExamState \<Rightarrow> ExamState" where
  "uiEvent B now e qs q s =
    (case e of
       ClickOption i \<Rightarrow>
         if i < length (options q) then rerunEffect (handleAnswerSelect (qid q) (options q ! i) s)
         else s
     | ClickMark \<Rightarrow> handleMarkForReview (qid q) s
     | ClickClear \<Rightarrow> rerunEffect (clearResponse s)
     | ClickPrev \<Rightarrow> if currentQuestionIndex s = 0 then s else prevQuestion s
     | ClickNext \<Rightarrow>
         if currentQuestionIndex s = int (length qs) - 1 then s else nextQuestion s
     | PaletteGoto i \<Rightarrow> if i < length qs then s\<lparr>currentQuestionIndex := int i\<rparr> else s
     | OpenSubmitDialog \<Rightarrow> s\<lparr>isSubmitDialogOpen := True\<rparr>
     | CancelSubmit \<Rightarrow> if isSubmitDialogOpen s then s\<lparr>isSubmitDialogOpen := False\<rparr> else s
     | ConfirmSubmit \<Rightarrow>
         if isSubmitDialogOpen s
         then handleSubmit B now (toast ''Exam Submitted!'' (s\<lparr>isSubmitDialogOpen := False\<rparr>))
         else s
     | OpenExitDialog \<Rightarrow> s\<lparr>isExitDialogOpen := True\<rparr>
     | CancelExit \<Rightarrow> if isExitDialogOpen s then s\<lparr>isExitDialogOpen := False\<rparr> else s
     | ConfirmExit \<Rightarrow>
         if isExitDialogOpen s then handleSubmit B now (s\<lparr>isExitDialogOpen := False\<rparr>) else s
     | AcknowledgeViolation \<Rightarrow>
         if isViolationDialogOpen s then requestFullscreen (s\<lparr>isViolationDialogOpen := False\<rparr>)
         else s
     | _ \<Rightarrow> s)"

definition step :: "Browser \<Rightarrow> string \<Rightarrow> event \<Rightarrow> ExamState \<Rightarrow> ExamState" where
  "step B now e s =
    (case e of
       Tick \<Rightarrow> if timerInstalled s then tick B now s else s
     | FullscreenChange b \<Rightarrow>
         (let s1 = s\<lparr>fullscreenElement := b\<rparr> in
          if listenersInstalled s1 then handleFullscreenChange B now s1 else s1)
     | VisibilityChange hidden \<Rightarrow>
         if listenersInstalled s then handleVisibilityChange B now hidden s else s
     | _ \<Rightarrow>
         (case questions s of
            None \<Rightarrow> s
          | Some qs \<Rightarrow>
              (case currentQuestion s of
                 None \<Rightarrow> s
               | Some q \<Rightarrow> uiEvent B now e qs q s)))"

text \<open>A run delivers events one after the other, each with the clock's reading.\<close>

fun run :: "Browser \<Rightarrow> (string \<times> event) list \<Rightarrow> ExamState \<Rightarrow> ExamState" where
  "run B [] s = s"
| "run B ((now, e) # es) s = run B es (step B now e s)"

text \<open>
  Mounting: the first render with the hooks' initial values, then the loading effect,
  then the render that follows it, which runs the timer effect.
\<close>

definition mount ::
  "Browser \<Rightarrow> SearchParams \<Rightarrow> string \<Rightarrow> bool \<Rightarrow> storage \<Rightarrow> storage \<Rightarrow> ExamState" where
  "mount B p start fs ls ss = rerunEffect (loadQuestions B p (initialState start fs ls ss))"

subsection \<open>The operations of the specification, in terms of the handlers\<close>

text \<open>
  The specification speaks of \<open>selectAnswer(questionId, value)\<close> and
  \<open>clearAnswer(questionId)\<close>. The first is \<open>handleAnswerSelect\<close>; the second is what
  \<open>clearResponse\<close> does when the current question has that id (lemma
  \<open>clearResponse_current\<close>). \<open>lastOp_spec q ops\<close> is the specification's "last operation on
  question \<open>q\<close>" of a sequence, and \<open>validOp_spec\<close> says that a selected value is one of the
  options of a question with that id.
\<close>

datatype answer_op = SelectAnswer int string | ClearAnswer int

fun opId :: "answer_op \<Rightarrow> int" where
  "opId (SelectAnswer q v) = q"
| "opId (ClearAnswer q) = q"

fun applyOp :: "answer_op \<Rightarrow> ExamState \<Rightarrow> ExamState" where
  "applyOp (SelectAnswer q v) s = handleAnswerSelect q v s"
| "applyOp (ClearAnswer q) s = deleteAnswer q s"

fun lastOp_spec :: "int \<Rightarrow> answer_op list \<Rightarrow> answer_op option" where
  "lastOp_spec q [] = None"
| "lastOp_spec q (x # xs) =
    (case lastOp_spec q xs of
       Some y \<Rightarrow> Some y
     | None \<Rightarrow> if opId x = q then Some x else None)"

fun validOp_spec :: "Question list \<Rightarrow> answer_op \<Rightarrow> bool" where
  "validOp_spec qs (SelectAnswer q v) = (\<exists>x \<in> set qs. qid x = q \<and> v \<in> set (options x))"
| "validOp_spec qs (ClearAnswer q) = True"

text \<open>
  The specification's \<open>navigate(delta)\<close> and its \<open>clamp_spec\<close>. The source has two buttons:
  Prev is a step of \<open>-1\<close> and Next a step of \<open>+1\<close>; a larger \<open>delta\<close> is that many
  presses of one of them.
\<close>

definition clamp_spec :: "int \<Rightarrow> int \<Rightarrow> int \<Rightarrow> int" where
  "clamp_spec x lo hi = max lo (min hi x)"

definition navigate :: "int \<Rightarrow> ExamState \<Rightarrow> ExamState" where
  "navigate delta s =
    (if delta < 0 then (prevQuestion ^^ nat (- delta)) s else (nextQuestion ^^ nat delta) s)"

text \<open>The interval firing once for every clock reading of a list.\<close>

definition ticks :: "string list \<Rightarrow> (string \<times> event) list" where
  "ticks nows = map (\<lambda>now. (now, Tick)) nows"

subsection \<open>A session of three questions\<close>

definition demoQuestions :: "Question list" where
  "demoQuestions =
    [\<lparr>qid = 1, topic = ''Algebra'', question = ''1 + 1'', options = [''1'', ''2'', ''3''],
       correctAnswer = ''2''\<rparr>,
     \<lparr>qid = 2, topic = ''Algebra'', question = ''2 * 3'', options = [''5'', ''6''],
       correctAnswer = ''6''\<rparr>,
     \<lparr>qid = 3, topic = ''Logic'', question = ''not true'', options = [''true'', ''false''],
       correctAnswer = ''false''\<rparr>]"

text \<open>
  A browser for the examples: its \<^verbatim>\<open>JSON.stringify\<close> keeps the submission time of a
  snapshot, its \<^verbatim>\<open>JSON.parse\<close> reads two texts, one as the three questions and one as
  the empty list, and its \<^verbatim>\<open>fetch\<close> fails.
\<close>

definition demoBrowser :: Browser where
  "demoBrowser =
    \<lparr>JSON_stringify = (\<lambda>d. submittedAt_data d),
     JSON_parse_questions =
       (\<lambda>t. if t = ''three'' then Some demoQuestions else if t = ''none'' then Some [] else None),
     JSON_parse_offline = (\<lambda>t. None),
     fetch = (\<lambda>path. NetworkError)\<rparr>"

definition demoParams :: SearchParams where
  "demoParams =
    \<lparr>customExamKey = Some ''custom'', examSlug = None, year = None, offlineTestKey = None,
     examBoard = None, examNameParam = None\<rparr>"

definition demoSession :: storage where
  "demoSession = [''custom'' \<mapsto> ''three'']"

definition emptySession :: storage where
  "emptySession = [''custom'' \<mapsto> ''none'']"

definition demoState :: ExamState where
  "demoState = mount demoBrowser demoParams ''09:00'' True Map.empty demoSession"

definition demoSubmitted :: ExamState where
  "demoSubmitted = handleSubmit demoBrowser ''09:30'' demoState"

section \<open>Properties\<close>

declare digits.simps [simp del]

subsection \<open>Unfolding sets\<close>

lemmas effect_defs =
  toast_def localStorage_setItem_def localStorage_removeItem_def sessionStorage_removeItem_def
  router_push_def setTimeout_replace_def requestFullscreen_def

lemmas load_defs =
  loadQuestions_def resolveQuestions_def loadCustom_def loadOffline_def loadRemote_def
  truthy_def orElse_def

lemmas handler_defs =
  handleViolation_def tick_def handleFullscreenChange_def handleVisibilityChange_def
  handleAnswerSelect_def handleMarkForReview_def clearResponse_def deleteAnswer_def
  prevQuestion_def nextQuestion_def

lemmas effect_hook_defs = rerunEffect_def examEffect_def examEffectCleanup_def

subsection \<open>The demonstration session, evaluated\<close>

lemma demoState_eq:
  "demoState =
    \<lparr> questions = Some demoQuestions,
      currentQuestionIndex = 0,
      answers = Map.empty,
      markedForReview = [],
      timeLeft = 7200,
      isSubmitDialogOpen = False,
      isExitDialogOpen = False,
      examName = ''AI Custom Test'',
      isSubmitting = False,
      startedAt = ''09:00'',
      violationCount = 0,
      isViolationDialogOpen = False,
      violationMessage = [],
      fullscreenElement = True,
      localStorage = Map.empty,
      sessionStorage = Map.empty,
      setItemLog = [],
      timeouts = [],
      routerPush = [],
      toasts = [],
      exitFullscreenCalls = 0,
      requestFullscreenCalls = 0,
      timerInstalled = True,
      listenersInstalled = True,
      uncaught = [] \<rparr>"
  by (simp add: demoState_def mount_def initialState_def load_defs effect_defs demoParams_def
      demoSession_def demoBrowser_def demoQuestions_def effect_hook_defs EXAM_DURATION_def)

lemma demoSubmitted_eq:
  "demoSubmitted =
    demoState\<lparr>isSubmitting := True, exitFullscreenCalls := 1,
      localStorage := [''lastExamData'' \<mapsto> ''09:30''],
      setItemLog := [(''lastExamData'', ''09:30'')],
      timeouts := [(100, ''/results'')]\<rparr>"
  by (simp add: demoSubmitted_def demoState_eq handleSubmit_def effect_defs demoBrowser_def Let_def)

lemma numberToString_small:
  "numberToString 2 = ''2''" "numberToString 1 = ''1''"
  by (simp_all add: numberToString_def digits.simps digit_def)

subsection \<open>The submission latch\<close>

lemma handleSubmit_latched: "isSubmitting s \<Longrightarrow> handleSubmit B now s = s"
  by (simp add: handleSubmit_def)

lemma handleSubmit_sets_latch: "isSubmitting (handleSubmit B now s)"
  by (simp add: handleSubmit_def Let_def effect_defs split: option.splits)

lemma handleSubmit_first:
  assumes "\<not> isSubmitting s" and "questions s = Some qs"
  shows "handleSubmit B now s =
    s\<lparr>isSubmitting := True,
      exitFullscreenCalls :=
        (if fullscreenElement s then exitFullscreenCalls s + 1 else exitFullscreenCalls s),
      localStorage := (localStorage s)(''lastExamData'' \<mapsto>
        JSON_stringify B \<lparr>answers_data = answers s, questions_data = qs,
          examName_data = examName s, startedAt_data = startedAt s, submittedAt_data = now\<rparr>),
      setItemLog := setItemLog s @ [(''lastExamData'',
        JSON_stringify B \<lparr>answers_data = answers s, questions_data = qs,
          examName_data = examName s, startedAt_data = startedAt s, submittedAt_data = now\<rparr>)],
      timeouts := timeouts s @ [(100, ''/results'')]\<rparr>"
  using assms by (simp add: handleSubmit_def Let_def effect_defs)

lemma handleSubmit_frame:
  "questions (handleSubmit B now s) = questions s"
  "currentQuestionIndex (handleSubmit B now s) = currentQuestionIndex s"
  "answers (handleSubmit B now s) = answers s"
  "markedForReview (handleSubmit B now s) = markedForReview s"
  "timeLeft (handleSubmit B now s) = timeLeft s"
  "violationCount (handleSubmit B now s) = violationCount s"
  "isViolationDialogOpen (handleSubmit B now s) = isViolationDialogOpen s"
  "violationMessage (handleSubmit B now s) = violationMessage s"
  "timerInstalled (handleSubmit B now s) = timerInstalled s"
  "listenersInstalled (handleSubmit B now s) = listenersInstalled s"
  "routerPush (handleSubmit B now s) = routerPush s"
  "uncaught (handleSubmit B now s) = uncaught s"
  "fullscreenElement (handleSubmit B now s) = fullscreenElement s"
  "isSubmitDialogOpen (handleSubmit B now s) = isSubmitDialogOpen s"
  "isExitDialogOpen (handleSubmit B now s) = isExitDialogOpen s"
  by (simp_all add: handleSubmit_def Let_def effect_defs split: option.splits)

lemma fold_handleSubmit_latched:
  "isSubmitting s \<Longrightarrow> fold (handleSubmit B) nows s = s"
  by (induction nows) (simp_all add: handleSubmit_latched)

lemma rerunEffect_frame:
  "questions (rerunEffect s) = questions s"
  "currentQuestionIndex (rerunEffect s) = currentQuestionIndex s"
  "answers (rerunEffect s) = answers s"
  "markedForReview (rerunEffect s) = markedForReview s"
  "timeLeft (rerunEffect s) = timeLeft s"
  "isSubmitting (rerunEffect s) = isSubmitting s"
  "setItemLog (rerunEffect s) = setItemLog s"
  "timeouts (rerunEffect s) = timeouts s"
  "localStorage (rerunEffect s) = localStorage s"
  "routerPush (rerunEffect s) = routerPush s"
  "violationCount (rerunEffect s) = violationCount s"
  "uncaught (rerunEffect s) = uncaught s"
  "timerInstalled (rerunEffect s) = (questions s \<noteq> None)"
  "listenersInstalled (rerunEffect s) = (questions s \<noteq> None)"
  by (simp_all add: effect_hook_defs split: option.splits)

subsection \<open>What a step and a run leave alone\<close>

lemma step_questions: "questions (step B now e s) = questions s"
  by (cases e)
    (auto simp: step_def uiEvent_def handler_defs effect_defs handleSubmit_frame
      rerunEffect_frame Let_def split: option.splits)

lemma run_questions: "questions (run B es s) = questions s"
  by (induction B es s rule: run.induct) (simp_all add: step_questions)

lemma step_submitted:
  assumes "isSubmitting s"
  shows "isSubmitting (step B now e s) \<and> setItemLog (step B now e s) = setItemLog s \<and>
    timeouts (step B now e s) = timeouts s \<and> localStorage (step B now e s) = localStorage s"
  using assms
  by (cases e)
    (auto simp: step_def uiEvent_def handler_defs effect_defs handleSubmit_latched
      rerunEffect_frame Let_def split: option.splits)

lemma run_submitted:
  "isSubmitting s \<Longrightarrow> isSubmitting (run B es s) \<and> setItemLog (run B es s) = setItemLog s \<and>
    timeouts (run B es s) = timeouts s \<and> localStorage (run B es s) = localStorage s"
proof (induction es arbitrary: s)
  case Nil
  then show ?case by simp
next
  case (Cons x es)
  obtain now e where x: "x = (now, e)" by (cases x)
  from step_submitted [OF Cons.prems, of B now e] Cons.IH [of "step B now e s"] x
  show ?case by simp
qed

lemma run_append: "run B (es @ fs) s = run B fs (run B es s)"
  by (induction B es s rule: run.induct) simp_all

subsection \<open>The loader\<close>

lemma loadCustom_frame:
  "questions (snd (loadCustom B key s)) = questions s"
  "isSubmitting (snd (loadCustom B key s)) = isSubmitting s"
  "setItemLog (snd (loadCustom B key s)) = setItemLog s"
  "timeouts (snd (loadCustom B key s)) = timeouts s"
  "timerInstalled (snd (loadCustom B key s)) = timerInstalled s"
  "listenersInstalled (snd (loadCustom B key s)) = listenersInstalled s"
  "timeLeft (snd (loadCustom B key s)) = timeLeft s"
  "currentQuestionIndex (snd (loadCustom B key s)) = currentQuestionIndex s"
  "answers (snd (loadCustom B key s)) = answers s"
  "markedForReview (snd (loadCustom B key s)) = markedForReview s"
  "violationCount (snd (loadCustom B key s)) = violationCount s"
  "fst (loadCustom B key s) \<noteq> None \<longrightarrow> routerPush (snd (loadCustom B key s)) = routerPush s"
  by (simp_all add: loadCustom_def effect_defs Let_def split: option.splits)

lemma loadOffline_frame:
  "questions (snd (loadOffline B key s)) = questions s"
  "isSubmitting (snd (loadOffline B key s)) = isSubmitting s"
  "setItemLog (snd (loadOffline B key s)) = setItemLog s"
  "timeouts (snd (loadOffline B key s)) = timeouts s"
  "timerInstalled (snd (loadOffline B key s)) = timerInstalled s"
  "listenersInstalled (snd (loadOffline B key s)) = listenersInstalled s"
  "timeLeft (snd (loadOffline B key s)) = timeLeft s"
  "currentQuestionIndex (snd (loadOffline B key s)) = currentQuestionIndex s"
  "answers (snd (loadOffline B key s)) = answers s"
  "markedForReview (snd (loadOffline B key s)) = markedForReview s"
  "violationCount (snd (loadOffline B key s)) = violationCount s"
  "fst (loadOffline B key s) \<noteq> None \<longrightarrow> routerPush (snd (loadOffline B key s)) = routerPush s"
  by (simp_all add: loadOffline_def effect_defs Let_def split: option.splits)

lemma loadRemote_frame:
  "questions (snd (loadRemote B p a b c s)) = questions s"
  "isSubmitting (snd (loadRemote B p a b c s)) = isSubmitting s"
  "setItemLog (snd (loadRemote B p a b c s)) = setItemLog s"
  "timeouts (snd (loadRemote B p a b c s)) = timeouts s"
  "timerInstalled (snd (loadRemote B p a b c s)) = timerInstalled s"
  "listenersInstalled (snd (loadRemote B p a b c s)) = listenersInstalled s"
  "timeLeft (snd (loadRemote B p a b c s)) = timeLeft s"
  "currentQuestionIndex (snd (loadRemote B p a b c s)) = currentQuestionIndex s"
  "answers (snd (loadRemote B p a b c s)) = answers s"
  "markedForReview (snd (loadRemote B p a b c s)) = markedForReview s"
  "violationCount (snd (loadRemote B p a b c s)) = violationCount s"
  "fst (loadRemote B p a b c s) \<noteq> None \<longrightarrow> routerPush (snd (loadRemote B p a b c s)) = routerPush s"
  by (simp_all add: loadRemote_def effect_defs Let_def
      split: fetch_result.splits bool.splits option.splits)

lemma resolveQuestions_frame:
  "questions (snd (resolveQuestions B p s)) = questions s"
  "isSubmitting (snd (resolveQuestions B p s)) = isSubmitting s"
  "setItemLog (snd (resolveQuestions B p s)) = setItemLog s"
  "timeouts (snd (resolveQuestions B p s)) = timeouts s"
  "timerInstalled (snd (resolveQuestions B p s)) = timerInstalled s"
  "listenersInstalled (snd (resolveQuestions B p s)) = listenersInstalled s"
  "timeLeft (snd (resolveQuestions B p s)) = timeLeft s"
  "currentQuestionIndex (snd (resolveQuestions B p s)) = currentQuestionIndex s"
  "answers (snd (resolveQuestions B p s)) = answers s"
  "markedForReview (snd (resolveQuestions B p s)) = markedForReview s"
  "violationCount (snd (resolveQuestions B p s)) = violationCount s"
  "fst (resolveQuestions B p s) \<noteq> None \<longrightarrow> routerPush (snd (resolveQuestions B p s)) = routerPush s"
  by (simp_all add: resolveQuestions_def loadCustom_frame loadOffline_frame loadRemote_frame
      effect_defs)

lemma loadQuestions_alt:
  "loadQuestions B p s =
    (let r = resolveQuestions B p (localStorage_removeItem ''lastExamData'' s) in
     case fst r of
       None \<Rightarrow> snd r
     | Some loaded \<Rightarrow> if loaded = [] then snd r else (snd r)\<lparr>questions := Some loaded\<rparr>)"
  by (simp add: loadQuestions_def Let_def split: prod.splits option.splits)

lemma loadQuestions_frame:
  "isSubmitting (loadQuestions B p s) = isSubmitting s"
  "setItemLog (loadQuestions B p s) = setItemLog s"
  "timeouts (loadQuestions B p s) = timeouts s"
  "timeLeft (loadQuestions B p s) = timeLeft s"
  "currentQuestionIndex (loadQuestions B p s) = currentQuestionIndex s"
  "answers (loadQuestions B p s) = answers s"
  "markedForReview (loadQuestions B p s) = markedForReview s"
  "violationCount (loadQuestions B p s) = violationCount s"
  "timerInstalled (loadQuestions B p s) = timerInstalled s"
  "listenersInstalled (loadQuestions B p s) = listenersInstalled s"
  by (simp_all add: loadQuestions_alt Let_def resolveQuestions_frame localStorage_removeItem_def
      split: option.splits)

lemma loadQuestions_questions:
  "questions (loadQuestions B p s) =
    (case fst (resolveQuestions B p (localStorage_removeItem ''lastExamData'' s)) of
       None \<Rightarrow> questions s
     | Some loaded \<Rightarrow> if loaded = [] then questions s else Some loaded)"
  by (simp add: loadQuestions_alt Let_def resolveQuestions_frame localStorage_removeItem_def
      split: option.splits)

lemma loadQuestions_routerPush:
  "fst (resolveQuestions B p (localStorage_removeItem ''lastExamData'' s)) \<noteq> None \<Longrightarrow>
    routerPush (loadQuestions B p s) = routerPush s"
  using resolveQuestions_frame(12) [of B p "localStorage_removeItem ''lastExamData'' s"]
  by (auto simp: loadQuestions_alt Let_def localStorage_removeItem_def split: option.splits)

lemma mount_fields:
  "isSubmitting (mount B p start fs ls ss) = False"
  "setItemLog (mount B p start fs ls ss) = []"
  "timeouts (mount B p start fs ls ss) = []"
  "timeLeft (mount B p start fs ls ss) = EXAM_DURATION"
  "currentQuestionIndex (mount B p start fs ls ss) = 0"
  "answers (mount B p start fs ls ss) = Map.empty"
  "markedForReview (mount B p start fs ls ss) = []"
  "violationCount (mount B p start fs ls ss) = 0"
  "timerInstalled (mount B p start fs ls ss) = (questions (mount B p start fs ls ss) \<noteq> None)"
  "listenersInstalled (mount B p start fs ls ss) = (questions (mount B p start fs ls ss) \<noteq> None)"
  by (simp_all add: mount_def rerunEffect_frame loadQuestions_frame initialState_def)

lemma mount_questions:
  "questions (mount B p start fs ls ss) =
    (case fst (resolveQuestions B p
        (localStorage_removeItem ''lastExamData'' (initialState start fs ls ss))) of
       None \<Rightarrow> None
     | Some loaded \<Rightarrow> if loaded = [] then None else Some loaded)"
  by (simp add: mount_def rerunEffect_frame loadQuestions_questions initialState_def
      split: option.splits)

lemma mount_nonempty: "questions (mount B p start fs ls ss) = Some qs \<Longrightarrow> qs \<noteq> []"
  by (auto simp: mount_questions split: option.splits if_splits)

subsection \<open>The loading screen\<close>

lemma step_loading:
  assumes "questions s = None" and "\<not> timerInstalled s" and "\<not> listenersInstalled s"
  shows "step B now e s = (case e of FullscreenChange b \<Rightarrow> s\<lparr>fullscreenElement := b\<rparr> | _ \<Rightarrow> s)"
  using assms by (cases e) (simp_all add: step_def Let_def)

lemma run_loading:
  assumes "questions s = None" and "\<not> timerInstalled s" and "\<not> listenersInstalled s"
  shows "questions (run B es s) = None \<and> \<not> timerInstalled (run B es s) \<and>
    \<not> listenersInstalled (run B es s) \<and> routerPush (run B es s) = routerPush s \<and>
    timeouts (run B es s) = timeouts s \<and> setItemLog (run B es s) = setItemLog s \<and>
    isSubmitting (run B es s) = isSubmitting s \<and> timeLeft (run B es s) = timeLeft s"
  using assms
proof (induction es arbitrary: s)
  case Nil
  then show ?case by simp
next
  case (Cons x es)
  obtain now e where x: "x = (now, e)" by (cases x)
  let ?s = "step B now e s"
  have st: "?s = (case e of FullscreenChange b \<Rightarrow> s\<lparr>fullscreenElement := b\<rparr> | _ \<Rightarrow> s)"
    using Cons.prems by (rule step_loading)
  have keep: "questions ?s = None" "\<not> timerInstalled ?s" "\<not> listenersInstalled ?s"
    "routerPush ?s = routerPush s" "timeouts ?s = timeouts s" "setItemLog ?s = setItemLog s"
    "isSubmitting ?s = isSubmitting s" "timeLeft ?s = timeLeft s"
    using Cons.prems by (simp_all add: st split: event.splits)
  from Cons.IH [OF keep(1-3)] keep(4-8) x show ?case by simp
qed

lemma step_one_submission:
  assumes inst: "timerInstalled s \<or> listenersInstalled s \<longrightarrow> questions s \<noteq> None"
    and one: "if isSubmitting s then length (setItemLog s) = 1 \<and> length (timeouts s) = 1
              else setItemLog s = [] \<and> timeouts s = []"
  shows "(timerInstalled (step B now e s) \<or> listenersInstalled (step B now e s)
            \<longrightarrow> questions (step B now e s) \<noteq> None) \<and>
    (if isSubmitting (step B now e s)
     then length (setItemLog (step B now e s)) = 1 \<and> length (timeouts (step B now e s)) = 1
     else setItemLog (step B now e s) = [] \<and> timeouts (step B now e s) = [])"
proof (cases "questions s")
  case None
  with inst have off: "\<not> timerInstalled s" "\<not> listenersInstalled s" by auto
  show ?thesis
    using None off one by (simp add: step_loading [OF None off] split: event.splits)
next
  case (Some qs)
  show ?thesis
  proof (cases "isSubmitting s")
    case True
    from step_submitted [OF True, of B now e] one True Some show ?thesis
      by (simp add: step_questions)
  next
    case False
    with one have empty: "setItemLog s = []" "timeouts s = []" by auto
    have sub: "\<And>t u. questions u = Some qs \<Longrightarrow> \<not> isSubmitting u \<Longrightarrow>
        setItemLog u = [] \<Longrightarrow> timeouts u = [] \<Longrightarrow>
        isSubmitting (handleSubmit B t u) \<and> length (setItemLog (handleSubmit B t u)) = 1 \<and>
        length (timeouts (handleSubmit B t u)) = 1"
      by (simp add: handleSubmit_first)
    show ?thesis
      using Some False empty
      by (cases e)
        (auto simp: step_def uiEvent_def handler_defs effect_defs sub handleSubmit_frame
          rerunEffect_frame Let_def split: option.splits)
  qed
qed

lemma run_one_submission:
  assumes "timerInstalled s \<or> listenersInstalled s \<longrightarrow> questions s \<noteq> None"
    and "if isSubmitting s then length (setItemLog s) = 1 \<and> length (timeouts s) = 1
         else setItemLog s = [] \<and> timeouts s = []"
  shows "if isSubmitting (run B es s)
     then length (setItemLog (run B es s)) = 1 \<and> length (timeouts (run B es s)) = 1
     else setItemLog (run B es s) = [] \<and> timeouts (run B es s) = []"
  using assms
proof (induction es arbitrary: s)
  case Nil
  then show ?case by simp
next
  case (Cons x es)
  obtain now e where x: "x = (now, e)" by (cases x)
  from step_one_submission [OF Cons.prems, of B now e]
  have "if isSubmitting (run B es (step B now e s))
     then length (setItemLog (run B es (step B now e s))) = 1 \<and>
          length (timeouts (run B es (step B now e s))) = 1
     else setItemLog (run B es (step B now e s)) = [] \<and> timeouts (run B es (step B now e s)) = []"
    by (intro Cons.IH) blast+
  with x show ?case by simp
qed

lemma mount_one_submission:
  "length (setItemLog (run B es (mount B p start fs ls ss))) =
     (if isSubmitting (run B es (mount B p start fs ls ss)) then 1 else 0) \<and>
   length (timeouts (run B es (mount B p start fs ls ss))) =
     (if isSubmitting (run B es (mount B p start fs ls ss)) then 1 else 0)"
  using run_one_submission [of "mount B p start fs ls ss" B es]
  by (simp add: mount_fields split: if_splits)

text \<open>
  C1. Submission is idempotent. The first call of \<open>handleSubmit\<close> on an exam screen sets
  the latch, writes one snapshot under \<^verbatim>\<open>lastExamData\<close> and schedules one navigation to
  \<^verbatim>\<open>/results\<close>; any number of further calls, and any events that follow (a further
  violation, the timer running out, a confirmed exit), leave the write log and the
  scheduled navigations as the first call left them. From mounting on, a session has
  written one snapshot and scheduled one navigation if it is submitted, and none if not.
\<close>

theorem submit_idempotent:
  assumes "\<not> isSubmitting s" and "questions s = Some qs"
  shows "isSubmitting (handleSubmit B now s) \<and>
    setItemLog (handleSubmit B now s) =
      setItemLog s @ [(''lastExamData'',
        JSON_stringify B \<lparr>answers_data = answers s, questions_data = qs,
          examName_data = examName s, startedAt_data = startedAt s, submittedAt_data = now\<rparr>)] \<and>
    timeouts (handleSubmit B now s) = timeouts s @ [(100, ''/results'')] \<and>
    fold (handleSubmit B) nows (handleSubmit B now s) = handleSubmit B now s \<and>
    setItemLog (run B es (handleSubmit B now s)) = setItemLog (handleSubmit B now s) \<and>
    timeouts (run B es (handleSubmit B now s)) = timeouts (handleSubmit B now s) \<and>
    length (setItemLog (run B es (mount B p start fs ls ss))) =
      (if isSubmitting (run B es (mount B p start fs ls ss)) then 1 else 0) \<and>
    length (timeouts (run B es (mount B p start fs ls ss))) =
      (if isSubmitting (run B es (mount B p start fs ls ss)) then 1 else 0)"
proof -
  let ?s1 = "handleSubmit B now s"
  have latch: "isSubmitting ?s1" by (rule handleSubmit_sets_latch)
  have first: "setItemLog ?s1 =
      setItemLog s @ [(''lastExamData'',
        JSON_stringify B \<lparr>answers_data = answers s, questions_data = qs,
          examName_data = examName s, startedAt_data = startedAt s, submittedAt_data = now\<rparr>)]"
    "timeouts ?s1 = timeouts s @ [(100, ''/results'')]"
    by (simp_all add: handleSubmit_first [OF assms])
  have again: "fold (handleSubmit B) nows ?s1 = ?s1"
    using latch by (rule fold_handleSubmit_latched)
  from run_submitted [OF latch, of B es]
  have later: "setItemLog (run B es ?s1) = setItemLog ?s1" "timeouts (run B es ?s1) = timeouts ?s1"
    by simp_all
  from latch first again later mount_one_submission [of B es p start fs ls ss]
  show ?thesis by simp
qed

theorem submit_idempotent_witness:
  "\<not> isSubmitting demoState \<and> questions demoState = Some demoQuestions \<and>
   isSubmitting demoSubmitted \<and>
   setItemLog demoSubmitted = [(''lastExamData'', ''09:30'')] \<and>
   timeouts demoSubmitted = [(100, ''/results'')] \<and>
   fold (handleSubmit demoBrowser) [''09:31'', ''09:32''] demoSubmitted = demoSubmitted \<and>
   setItemLog (run demoBrowser [(''09:31'', VisibilityChange True), (''09:32'', Tick)] demoSubmitted)
     = [(''lastExamData'', ''09:30'')] \<and>
   timeouts (run demoBrowser [(''09:31'', VisibilityChange True), (''09:32'', Tick)] demoSubmitted)
     = [(100, ''/results'')]"
proof -
  have h1: "\<not> isSubmitting demoState" by (simp add: demoState_eq)
  have h2: "questions demoState = Some demoQuestions" by (simp add: demoState_eq)
  have a: "isSubmitting demoSubmitted"
    "setItemLog demoSubmitted = [(''lastExamData'', ''09:30'')]"
    "timeouts demoSubmitted = [(100, ''/results'')]"
    by (simp_all add: demoSubmitted_eq demoState_eq)
  from submit_idempotent [OF h1 h2, where B = demoBrowser and now = "''09:30''"
      and nows = "[''09:31'', ''09:32'']"
      and es = "[(''09:31'', VisibilityChange True), (''09:32'', Tick)]"]
  have b: "fold (handleSubmit demoBrowser) [''09:31'', ''09:32''] demoSubmitted = demoSubmitted"
    "setItemLog (run demoBrowser [(''09:31'', VisibilityChange True), (''09:32'', Tick)] demoSubmitted)
      = setItemLog demoSubmitted"
    "timeouts (run demoBrowser [(''09:31'', VisibilityChange True), (''09:32'', Tick)] demoSubmitted)
      = timeouts demoSubmitted"
    unfolding demoSubmitted_def by blast+
  show ?thesis using h1 h2 a b by simp
qed

subsection \<open>The order of the questions\<close>

lemma shuffleArray_reorders:
  "shuffleArray (\<lambda>i. if i = 0 then 3 / 4 else 1 / 4) demoQuestions =
    [demoQuestions ! 1, demoQuestions ! 2, demoQuestions ! 0]"
  by (simp add: shuffleArray_def demoQuestions_def upt_rec)

text \<open>
  C9. The questions of the session are the loader's list, in the loader's order: when
  the source is resolved to a list that is not empty, \<open>loadQuestions\<close> stores that very
  list, and no event of the session changes it. \<open>shuffleArray\<close> is defined and would
  reorder a list (lemma \<open>shuffleArray_reorders\<close>), but nothing calls it.
\<close>

theorem questions_in_loader_order:
  assumes "fst (resolveQuestions B p
      (localStorage_removeItem ''lastExamData'' (initialState start fs ls ss))) = Some loaded"
    and "loaded \<noteq> []"
  shows "questions (loadQuestions B p (initialState start fs ls ss)) = Some loaded \<and>
    questions (mount B p start fs ls ss) = Some loaded \<and>
    questions (run B es (mount B p start fs ls ss)) = Some loaded"
  using assms by (simp add: loadQuestions_questions mount_questions run_questions)

theorem questions_in_loader_order_witness:
  "fst (resolveQuestions demoBrowser demoParams
      (localStorage_removeItem ''lastExamData''
        (initialState ''09:00'' True Map.empty demoSession))) = Some demoQuestions \<and>
   demoQuestions \<noteq> [] \<and>
   questions demoState = Some demoQuestions \<and>
   questions (run demoBrowser [(''09:10'', ClickNext), (''09:11'', ClickOption 1)] demoState)
     = Some demoQuestions \<and>
   shuffleArray (\<lambda>i. if i = 0 then 3 / 4 else 1 / 4) demoQuestions \<noteq> demoQuestions"
proof -
  have h1: "fst (resolveQuestions demoBrowser demoParams
      (localStorage_removeItem ''lastExamData''
        (initialState ''09:00'' True Map.empty demoSession))) = Some demoQuestions"
    by (simp add: load_defs effect_defs initialState_def demoParams_def demoSession_def
        demoBrowser_def)
  have h2: "demoQuestions \<noteq> []" by (simp add: demoQuestions_def)
  have sh: "shuffleArray (\<lambda>i. if i = 0 then 3 / 4 else 1 / 4) demoQuestions \<noteq> demoQuestions"
    by (simp add: shuffleArray_reorders) (simp add: demoQuestions_def)
  from questions_in_loader_order [OF h1 h2,
      of "[(''09:10'', ClickNext), (''09:11'', ClickOption 1)]"]
  have "questions demoState = Some demoQuestions"
    "questions (run demoBrowser [(''09:10'', ClickNext), (''09:11'', ClickOption 1)] demoState)
      = Some demoQuestions"
    unfolding demoState_def by blast+
  with h1 h2 sh show ?thesis by blast
qed

subsection \<open>An empty list\<close>

text \<open>
  C10. When the source is resolved to an empty list, line 166 skips \<open>setQuestions\<close>:
  after mounting, and after any events whatever, \<open>questions\<close> is still null, the
  loading screen is shown, neither the timer nor the listeners are installed, and no
  navigation has been pushed or scheduled; nothing is submitted or written.
\<close>

theorem empty_load_stays_loading:
  assumes "fst (resolveQuestions B p
      (localStorage_removeItem ''lastExamData'' (initialState start fs ls ss))) = Some []"
  shows "questions (run B es (mount B p start fs ls ss)) = None \<and>
    render (run B es (mount B p start fs ls ss)) = LoadingScreen \<and>
    \<not> timerInstalled (run B es (mount B p start fs ls ss)) \<and>
    \<not> listenersInstalled (run B es (mount B p start fs ls ss)) \<and>
    routerPush (run B es (mount B p start fs ls ss)) = [] \<and>
    timeouts (run B es (mount B p start fs ls ss)) = [] \<and>
    setItemLog (run B es (mount B p start fs ls ss)) = [] \<and>
    \<not> isSubmitting (run B es (mount B p start fs ls ss))"
proof -
  let ?m = "mount B p start fs ls ss"
  have q: "questions ?m = None" using assms by (simp add: mount_questions)
  have off: "\<not> timerInstalled ?m" "\<not> listenersInstalled ?m"
    using q by (simp_all add: mount_fields)
  have push: "routerPush ?m = []"
    using assms
    by (simp add: mount_def rerunEffect_frame loadQuestions_routerPush initialState_def)
  from run_loading [OF q off, of B es] push
  show ?thesis by (simp add: mount_fields render_def)
qed

theorem empty_load_stays_loading_witness:
  "fst (resolveQuestions demoBrowser demoParams
      (localStorage_removeItem ''lastExamData''
        (initialState ''09:00'' True Map.empty emptySession))) = Some [] \<and>
   render (run demoBrowser
      [(''09:01'', Tick), (''09:02'', VisibilityChange True), (''09:03'', ConfirmSubmit)]
      (mount demoBrowser demoParams ''09:00'' True Map.empty emptySession)) = LoadingScreen \<and>
   routerPush (run demoBrowser
      [(''09:01'', Tick), (''09:02'', VisibilityChange True), (''09:03'', ConfirmSubmit)]
      (mount demoBrowser demoParams ''09:00'' True Map.empty emptySession)) = [] \<and>
   timeouts (run demoBrowser
      [(''09:01'', Tick), (''09:02'', VisibilityChange True), (''09:03'', ConfirmSubmit)]
      (mount demoBrowser demoParams ''09:00'' True Map.empty emptySession)) = []"
proof -
  have h: "fst (resolveQuestions demoBrowser demoParams
      (localStorage_removeItem ''lastExamData''
        (initialState ''09:00'' True Map.empty emptySession))) = Some []"
    by (simp add: load_defs effect_defs initialState_def demoParams_def emptySession_def
        demoBrowser_def)
  from empty_load_stays_loading [OF h,
      of "[(''09:01'', Tick), (''09:02'', VisibilityChange True), (''09:03'', ConfirmSubmit)]"]
  show ?thesis using h by blast
qed

subsection \<open>The timer\<close>

lemma ticks_simps:
  "ticks [] = []"
  "ticks (now # nows) = (now, Tick) # ticks nows"
  "ticks (xs @ ys) = ticks xs @ ticks ys"
  by (simp_all add: ticks_def)

lemma run_ticks_before_expiry:
  "timerInstalled s \<Longrightarrow> int (length nows) < timeLeft s \<Longrightarrow>
    run B (ticks nows) s = s\<lparr>timeLeft := timeLeft s - int (length nows)\<rparr>"
proof (induction nows arbitrary: s)
  case Nil
  then show ?case by (simp add: ticks_simps)
next
  case (Cons now nows)
  let ?s = "s\<lparr>timeLeft := timeLeft s - 1\<rparr>"
  have st: "step B now Tick s = ?s"
    using Cons.prems by (simp add: step_def tick_def)
  have "run B (ticks nows) ?s = ?s\<lparr>timeLeft := timeLeft ?s - int (length nows)\<rparr>"
    using Cons.prems by (intro Cons.IH) simp_all
  then show ?case by (simp add: ticks_simps st algebra_simps)
qed

lemma run_ticks_stopped: "\<not> timerInstalled s \<Longrightarrow> run B (ticks nows) s = s"
  by (induction nows) (simp_all add: ticks_simps step_def)

lemma tick_expiry:
  assumes "timeLeft s \<le> 1" and "\<not> isSubmitting s" and "questions s = Some qs"
  shows "\<not> timerInstalled (tick B now s) \<and> timeLeft (tick B now s) = 0 \<and>
    isSubmitting (tick B now s) \<and>
    length (setItemLog (tick B now s)) = length (setItemLog s) + 1 \<and>
    length (timeouts (tick B now s)) = length (timeouts s) + 1"
  using assms by (simp add: tick_def toast_def handleSubmit_first)

lemma run_ticks:
  assumes inst: "timerInstalled s" and unsub: "\<not> isSubmitting s"
    and qs: "questions s = Some qs" and pos: "1 \<le> timeLeft s"
  shows "timeLeft (run B (ticks nows) s) = max 0 (timeLeft s - int (length nows)) \<and>
    isSubmitting (run B (ticks nows) s) = (timeLeft s \<le> int (length nows)) \<and>
    length (setItemLog (run B (ticks nows) s)) =
      length (setItemLog s) + (if timeLeft s \<le> int (length nows) then 1 else 0) \<and>
    length (timeouts (run B (ticks nows) s)) =
      length (timeouts s) + (if timeLeft s \<le> int (length nows) then 1 else 0)"
proof (cases "int (length nows) < timeLeft s")
  case True
  then show ?thesis using unsub by (simp add: run_ticks_before_expiry [OF inst True])
next
  case False
  define k where "k = nat (timeLeft s) - 1"
  have k: "k < length nows" "int k = timeLeft s - 1" using False pos by (auto simp: k_def)
  have split: "nows = take k nows @ (nows ! k) # drop (Suc k) nows"
    using k(1) by (rule id_take_nth_drop)
  let ?s1 = "s\<lparr>timeLeft := 1\<rparr>"
  have "run B (ticks (take k nows)) s = s\<lparr>timeLeft := timeLeft s - int (length (take k nows))\<rparr>"
    using k by (intro run_ticks_before_expiry [OF inst]) simp
  then have s1: "run B (ticks (take k nows)) s = ?s1" using k by simp
  let ?s2 = "tick B (nows ! k) ?s1"
  have s2: "step B (nows ! k) Tick ?s1 = ?s2" using inst by (simp add: step_def)
  have e: "\<not> timerInstalled ?s2 \<and> timeLeft ?s2 = 0 \<and> isSubmitting ?s2 \<and>
    length (setItemLog ?s2) = length (setItemLog ?s1) + 1 \<and>
    length (timeouts ?s2) = length (timeouts ?s1) + 1"
    using unsub qs by (intro tick_expiry [where qs = qs]) simp_all
  have "run B (ticks nows) s = run B (ticks (drop (Suc k) nows)) ?s2"
    by (subst split) (simp add: ticks_simps run_append s1 s2)
  also have "\<dots> = ?s2" using e by (simp add: run_ticks_stopped)
  finally show ?thesis using e False by simp
qed

lemma step_timeLeft:
  "timeLeft (step B now e s) =
    (if e = Tick \<and> timerInstalled s then max 0 (timeLeft s - 1) else timeLeft s)"
  by (cases e)
    (auto simp: step_def uiEvent_def handler_defs effect_defs handleSubmit_frame
      rerunEffect_frame Let_def split: option.splits)

text \<open>
  C6. The remaining time starts at the fixed duration of 7200 seconds. A tick of the
  installed timer takes one second off while any are left, no event makes the time
  negative or moves it off zero, and after \<open>n\<close> ticks from mounting it is
  \<open>max 0 (7200 - n)\<close>. The session is submitted exactly when 7200 ticks have passed, and
  then one snapshot has been written and one navigation scheduled, however many more
  ticks are delivered.
\<close>

theorem timer_counts_down:
  assumes "questions (mount B p start fs ls ss) = Some qs"
  shows "EXAM_DURATION = 7200 \<and>
    timeLeft (mount B p start fs ls ss) = EXAM_DURATION \<and>
    (timerInstalled s \<and> 0 < timeLeft s \<longrightarrow> timeLeft (step B now Tick s) = timeLeft s - 1) \<and>
    (0 \<le> timeLeft s \<longrightarrow> 0 \<le> timeLeft (step B now e s)) \<and>
    (timeLeft s = 0 \<longrightarrow> timeLeft (step B now e s) = 0) \<and>
    timeLeft (run B (ticks nows) (mount B p start fs ls ss))
      = max 0 (EXAM_DURATION - int (length nows)) \<and>
    isSubmitting (run B (ticks nows) (mount B p start fs ls ss))
      = (EXAM_DURATION \<le> int (length nows)) \<and>
    length (setItemLog (run B (ticks nows) (mount B p start fs ls ss)))
      = (if EXAM_DURATION \<le> int (length nows) then 1 else 0) \<and>
    length (timeouts (run B (ticks nows) (mount B p start fs ls ss)))
      = (if EXAM_DURATION \<le> int (length nows) then 1 else 0)"
proof -
  let ?m = "mount B p start fs ls ss"
  have m: "timerInstalled ?m" "\<not> isSubmitting ?m" "1 \<le> timeLeft ?m"
    using assms by (simp_all add: mount_fields EXAM_DURATION_def)
  from run_ticks [OF m(1,2) assms m(3), of B nows]
  show ?thesis by (auto simp: mount_fields step_timeLeft EXAM_DURATION_def)
qed

theorem timer_counts_down_witness:
  "questions demoState = Some demoQuestions \<and>
   timeLeft demoState = 7200 \<and>
   timeLeft (run demoBrowser (ticks (replicate 7199 ''tick'')) demoState) = 1 \<and>
   length (setItemLog (run demoBrowser (ticks (replicate 7199 ''tick'')) demoState)) = 0 \<and>
   timeLeft (run demoBrowser (ticks (replicate 7200 ''tick'')) demoState) = 0 \<and>
   length (setItemLog (run demoBrowser (ticks (replicate 7200 ''tick'')) demoState)) = 1 \<and>
   length (timeouts (run demoBrowser (ticks (replicate 7200 ''tick'')) demoState)) = 1 \<and>
   timeLeft (run demoBrowser (ticks (replicate 9000 ''tick'')) demoState) = 0 \<and>
   length (setItemLog (run demoBrowser (ticks (replicate 9000 ''tick'')) demoState)) = 1"
proof -
  have h: "questions (mount demoBrowser demoParams ''09:00'' True Map.empty demoSession)
      = Some demoQuestions"
    by (simp add: demoState_def [symmetric] demoState_eq)
  have q: "questions demoState = Some demoQuestions" by (simp add: demoState_eq)
  note t = timer_counts_down [OF h, folded demoState_def,
      where s = demoState and now = "''09:00''" and e = Tick]
  have d: "EXAM_DURATION = 7200" by (simp add: EXAM_DURATION_def)
  have start: "timeLeft demoState = 7200" using t [of "[]"] d by simp
  have a: "timeLeft (run demoBrowser (ticks (replicate 7199 ''tick'')) demoState) = 1"
    "length (setItemLog (run demoBrowser (ticks (replicate 7199 ''tick'')) demoState)) = 0"
    using t [of "replicate 7199 ''tick''"] by (simp_all add: d)
  have b: "timeLeft (run demoBrowser (ticks (replicate 7200 ''tick'')) demoState) = 0"
    "length (setItemLog (run demoBrowser (ticks (replicate 7200 ''tick'')) demoState)) = 1"
    "length (timeouts (run demoBrowser (ticks (replicate 7200 ''tick'')) demoState)) = 1"
    using t [of "replicate 7200 ''tick''"] by (simp_all add: d)
  have c: "timeLeft (run demoBrowser (ticks (replicate 9000 ''tick'')) demoState) = 0"
    "length (setItemLog (run demoBrowser (ticks (replicate 9000 ''tick'')) demoState)) = 1"
    using t [of "replicate 9000 ''tick''"] by (simp_all add: d)
  from q start a b c show ?thesis by blast
qed

subsection \<open>Violations\<close>

lemma handleViolation_below:
  assumes "violationCount s + 1 < MAX_VIOLATIONS"
  shows "handleViolation B now cause s =
    s\<lparr>violationCount := violationCount s + 1,
      violationMessage := cause @ ''. You have ''
        @ numberToString (MAX_VIOLATIONS - (violationCount s + 1)) @ '' warning(s) left.'',
      isViolationDialogOpen := True\<rparr>"
  using assms by (simp add: handleViolation_def Let_def)

lemma handleViolation_reached:
  assumes "MAX_VIOLATIONS \<le> violationCount s + 1"
  shows "handleViolation B now cause s =
    handleSubmit B now (toast ''Exam Terminated'' (s\<lparr>violationCount := violationCount s + 1\<rparr>))"
  using assms by (simp add: handleViolation_def Let_def)

lemma step_hidden:
  "listenersInstalled s \<Longrightarrow>
    step B now (VisibilityChange True) s =
      handleViolation B now ''You have switched to another tab or window'' s"
  by (simp add: step_def handleVisibilityChange_def)

text \<open>
  C5. A violation on a session that is not submitted adds one to the count. If the
  count has then reached \<open>MAX_VIOLATIONS\<close>, which is 3, the session is submitted (one
  snapshot, one scheduled navigation) and the dialog and its message are left as they
  were; otherwise the warning dialog is opened with the message
  "<cause>. You have <3 - count> warning(s) left." and nothing is submitted. So three
  hidden-tab events on a fresh session show "2 warning(s) left", then "1 warning(s)
  left", and the third submits without a third message.
\<close>

theorem violation_escalation:
  assumes "\<not> isSubmitting s" and "questions s = Some qs"
  shows "MAX_VIOLATIONS = 3 \<and>
    violationCount (handleViolation B now cause s) = violationCount s + 1 \<and>
    (if MAX_VIOLATIONS \<le> violationCount s + 1
     then isSubmitting (handleViolation B now cause s) \<and>
       setItemLog (handleViolation B now cause s) =
         setItemLog s @ [(''lastExamData'',
           JSON_stringify B \<lparr>answers_data = answers s, questions_data = qs,
             examName_data = examName s, startedAt_data = startedAt s,
             submittedAt_data = now\<rparr>)] \<and>
       timeouts (handleViolation B now cause s) = timeouts s @ [(100, ''/results'')] \<and>
       isViolationDialogOpen (handleViolation B now cause s) = isViolationDialogOpen s \<and>
       violationMessage (handleViolation B now cause s) = violationMessage s
     else \<not> isSubmitting (handleViolation B now cause s) \<and>
       isViolationDialogOpen (handleViolation B now cause s) \<and>
       violationMessage (handleViolation B now cause s) =
         cause @ ''. You have '' @ numberToString (MAX_VIOLATIONS - (violationCount s + 1))
           @ '' warning(s) left.'' \<and>
       setItemLog (handleViolation B now cause s) = setItemLog s \<and>
       timeouts (handleViolation B now cause s) = timeouts s) \<and>
    (violationCount s = 0 \<and> listenersInstalled s \<longrightarrow>
      (let s1 = step B now (VisibilityChange True) s;
           s2 = step B now2 (VisibilityChange True) s1;
           s3 = step B now3 (VisibilityChange True) s2
       in isViolationDialogOpen s1 \<and> \<not> isSubmitting s1 \<and>
          violationMessage s1 =
            ''You have switched to another tab or window. You have 2 warning(s) left.'' \<and>
          isViolationDialogOpen s2 \<and> \<not> isSubmitting s2 \<and>
          violationMessage s2 =
            ''You have switched to another tab or window. You have 1 warning(s) left.'' \<and>
          isSubmitting s3 \<and> violationCount s3 = 3 \<and>
          violationMessage s3 = violationMessage s2 \<and>
          length (setItemLog s3) = length (setItemLog s) + 1 \<and>
          length (timeouts s3) = length (timeouts s) + 1))"
proof -
  have m: "MAX_VIOLATIONS = 3" by (simp add: MAX_VIOLATIONS_def)
  have count: "violationCount (handleViolation B now cause s) = violationCount s + 1"
    by (simp add: handleViolation_def Let_def handleSubmit_frame toast_def)
  have step1: "(if MAX_VIOLATIONS \<le> violationCount s + 1
     then isSubmitting (handleViolation B now cause s) \<and>
       setItemLog (handleViolation B now cause s) =
         setItemLog s @ [(''lastExamData'',
           JSON_stringify B \<lparr>answers_data = answers s, questions_data = qs,
             examName_data = examName s, startedAt_data = startedAt s,
             submittedAt_data = now\<rparr>)] \<and>
       timeouts (handleViolation B now cause s) = timeouts s @ [(100, ''/results'')] \<and>
       isViolationDialogOpen (handleViolation B now cause s) = isViolationDialogOpen s \<and>
       violationMessage (handleViolation B now cause s) = violationMessage s
     else \<not> isSubmitting (handleViolation B now cause s) \<and>
       isViolationDialogOpen (handleViolation B now cause s) \<and>
       violationMessage (handleViolation B now cause s) =
         cause @ ''. You have '' @ numberToString (MAX_VIOLATIONS - (violationCount s + 1))
           @ '' warning(s) left.'' \<and>
       setItemLog (handleViolation B now cause s) = setItemLog s \<and>
       timeouts (handleViolation B now cause s) = timeouts s)"
  proof (cases "MAX_VIOLATIONS \<le> violationCount s + 1")
    case True
    then show ?thesis
      using assms by (simp add: handleViolation_reached toast_def handleSubmit_first)
  next
    case False
    then show ?thesis using assms by (simp add: handleViolation_below)
  qed
  have scenario: "let s1 = step B now (VisibilityChange True) s;
           s2 = step B now2 (VisibilityChange True) s1;
           s3 = step B now3 (VisibilityChange True) s2
       in isViolationDialogOpen s1 \<and> \<not> isSubmitting s1 \<and>
          violationMessage s1 =
            ''You have switched to another tab or window. You have 2 warning(s) left.'' \<and>
          isViolationDialogOpen s2 \<and> \<not> isSubmitting s2 \<and>
          violationMessage s2 =
            ''You have switched to another tab or window. You have 1 warning(s) left.'' \<and>
          isSubmitting s3 \<and> violationCount s3 = 3 \<and>
          violationMessage s3 = violationMessage s2 \<and>
          length (setItemLog s3) = length (setItemLog s) + 1 \<and>
          length (timeouts s3) = length (timeouts s) + 1"
    if zero: "violationCount s = 0" and inst: "listenersInstalled s"
  proof -
    let ?c = "''You have switched to another tab or window''"
    define s1 where "s1 = step B now (VisibilityChange True) s"
    define s2 where "s2 = step B now2 (VisibilityChange True) s1"
    define s3 where "s3 = step B now3 (VisibilityChange True) s2"
    have s1: "s1 = s\<lparr>violationCount := 1,
        violationMessage := ?c @ ''. You have 2 warning(s) left.'',
        isViolationDialogOpen := True\<rparr>"
      using zero inst
      by (simp add: s1_def step_hidden handleViolation_below m numberToString_small)
    have s2: "s2 = s\<lparr>violationCount := 2,
        violationMessage := ?c @ ''. You have 1 warning(s) left.'',
        isViolationDialogOpen := True\<rparr>"
      using inst
      by (simp add: s2_def s1 step_hidden handleViolation_below m numberToString_small)
    have s3: "s3 = handleSubmit B now3 (toast ''Exam Terminated'' (s2\<lparr>violationCount := 3\<rparr>))"
      using inst by (simp add: s3_def step_hidden s2 handleViolation_reached m)
    have "isSubmitting s3 \<and> violationCount s3 = 3 \<and> violationMessage s3 = violationMessage s2 \<and>
        length (setItemLog s3) = length (setItemLog s) + 1 \<and>
        length (timeouts s3) = length (timeouts s) + 1"
      using assms by (simp add: s3 s2 toast_def handleSubmit_first)
    moreover have "isViolationDialogOpen s1 \<and> \<not> isSubmitting s1 \<and>
        violationMessage s1 = ?c @ ''. You have 2 warning(s) left.'' \<and>
        isViolationDialogOpen s2 \<and> \<not> isSubmitting s2 \<and>
        violationMessage s2 = ?c @ ''. You have 1 warning(s) left.''"
      using assms by (simp add: s1 s2)
    ultimately show ?thesis
      unfolding Let_def s1_def [symmetric] s2_def [symmetric] s3_def [symmetric] by simp
  qed
  from m count step1 scenario show ?thesis by blast
qed

theorem violation_escalation_witness:
  "\<not> isSubmitting demoState \<and> questions demoState = Some demoQuestions \<and>
   violationCount demoState = 0 \<and> listenersInstalled demoState \<and>
   violationMessage (run demoBrowser [(''09:01'', VisibilityChange True)] demoState)
     = ''You have switched to another tab or window. You have 2 warning(s) left.'' \<and>
   isViolationDialogOpen (run demoBrowser [(''09:01'', VisibilityChange True)] demoState) \<and>
   violationMessage (run demoBrowser
       [(''09:01'', VisibilityChange True), (''09:02'', VisibilityChange True)] demoState)
     = ''You have switched to another tab or window. You have 1 warning(s) left.'' \<and>
   isSubmitting (run demoBrowser
       [(''09:01'', VisibilityChange True), (''09:02'', VisibilityChange True),
        (''09:03'', VisibilityChange True)] demoState) \<and>
   violationMessage (run demoBrowser
       [(''09:01'', VisibilityChange True), (''09:02'', VisibilityChange True),
        (''09:03'', VisibilityChange True)] demoState)
     = ''You have switched to another tab or window. You have 1 warning(s) left.'' \<and>
   length (setItemLog (run demoBrowser
       [(''09:01'', VisibilityChange True), (''09:02'', VisibilityChange True),
        (''09:03'', VisibilityChange True)] demoState)) = 1"
proof -
  have h: "\<not> isSubmitting demoState" "questions demoState = Some demoQuestions"
    "violationCount demoState = 0" "listenersInstalled demoState" "setItemLog demoState = []"
    by (simp_all add: demoState_eq)
  from violation_escalation [OF h(1,2), where B = demoBrowser and now = "''09:01''"
      and ?now2.0 = "''09:02''" and ?now3.0 = "''09:03''"] h(3,4)
  have "let s1 = step demoBrowser ''09:01'' (VisibilityChange True) demoState;
           s2 = step demoBrowser ''09:02'' (VisibilityChange True) s1;
           s3 = step demoBrowser ''09:03'' (VisibilityChange True) s2
       in isViolationDialogOpen s1 \<and> \<not> isSubmitting s1 \<and>
          violationMessage s1 =
            ''You have switched to another tab or window. You have 2 warning(s) left.'' \<and>
          isViolationDialogOpen s2 \<and> \<not> isSubmitting s2 \<and>
          violationMessage s2 =
            ''You have switched to another tab or window. You have 1 warning(s) left.'' \<and>
          isSubmitting s3 \<and> violationCount s3 = 3 \<and>
          violationMessage s3 = violationMessage s2 \<and>
          length (setItemLog s3) = length (setItemLog demoState) + 1 \<and>
          length (timeouts s3) = length (timeouts demoState) + 1"
    by blast
  then show ?thesis using h by (simp add: Let_def)
qed

subsection \<open>Navigation\<close>

lemma nextQuestion_iter:
  assumes "questions s = Some qs" and "0 \<le> currentQuestionIndex s"
    and "currentQuestionIndex s < int (length qs)"
  shows "(nextQuestion ^^ n) s =
    s\<lparr>currentQuestionIndex := min (int (length qs) - 1) (currentQuestionIndex s + int n)\<rparr>"
proof (induction n)
  case 0
  have "min (int (length qs) - 1) (currentQuestionIndex s) = currentQuestionIndex s"
    using assms by simp
  then show ?case by simp
next
  case (Suc n)
  let ?s = "s\<lparr>currentQuestionIndex :=
    min (int (length qs) - 1) (currentQuestionIndex s + int n)\<rparr>"
  have "(nextQuestion ^^ Suc n) s = nextQuestion ((nextQuestion ^^ n) s)" by simp
  also have "\<dots> = nextQuestion ?s" by (simp only: Suc)
  also have "\<dots> = s\<lparr>currentQuestionIndex :=
      min (int (length qs) - 1) (currentQuestionIndex s + int (Suc n))\<rparr>"
    using assms(1) by (simp add: nextQuestion_def)
  finally show ?case .
qed

lemma prevQuestion_iter:
  assumes "0 \<le> currentQuestionIndex s"
  shows "(prevQuestion ^^ n) s =
    s\<lparr>currentQuestionIndex := max 0 (currentQuestionIndex s - int n)\<rparr>"
proof (induction n)
  case 0
  have "max 0 (currentQuestionIndex s) = currentQuestionIndex s" using assms by simp
  then show ?case by simp
next
  case (Suc n)
  let ?s = "s\<lparr>currentQuestionIndex := max 0 (currentQuestionIndex s - int n)\<rparr>"
  have "(prevQuestion ^^ Suc n) s = prevQuestion ((prevQuestion ^^ n) s)" by simp
  also have "\<dots> = prevQuestion ?s" by (simp only: Suc)
  also have "\<dots> = s\<lparr>currentQuestionIndex := max 0 (currentQuestionIndex s - int (Suc n))\<rparr>"
    by (simp add: prevQuestion_def)
  finally show ?case .
qed

lemma navigate_eq:
  assumes "questions s = Some qs" and "0 \<le> currentQuestionIndex s"
    and "currentQuestionIndex s < int (length qs)"
  shows "navigate delta s =
    s\<lparr>currentQuestionIndex := clamp_spec (currentQuestionIndex s + delta) 0 (int (length qs) - 1)\<rparr>"
proof (cases "delta < 0")
  case True
  have "max 0 (currentQuestionIndex s - int (nat (- delta))) =
    clamp_spec (currentQuestionIndex s + delta) 0 (int (length qs) - 1)"
    using True assms by (simp add: clamp_spec_def)
  then show ?thesis using True by (simp add: navigate_def prevQuestion_iter [OF assms(2)])
next
  case False
  have "min (int (length qs) - 1) (currentQuestionIndex s + int (nat delta)) =
    clamp_spec (currentQuestionIndex s + delta) 0 (int (length qs) - 1)"
    using False assms by (simp add: clamp_spec_def)
  then show ?thesis using False by (simp add: navigate_def nextQuestion_iter [OF assms])
qed

lemma fold_navigate:
  assumes "questions s = Some qs" and "0 \<le> currentQuestionIndex s"
    and "currentQuestionIndex s < int (length qs)"
  shows "questions (fold navigate deltas s) = Some qs \<and>
    0 \<le> currentQuestionIndex (fold navigate deltas s) \<and>
    currentQuestionIndex (fold navigate deltas s) < int (length qs) \<and>
    uncaught (fold navigate deltas s) = uncaught s"
  using assms
proof (induction deltas arbitrary: s)
  case Nil
  then show ?case by simp
next
  case (Cons d deltas)
  let ?s = "navigate d s"
  have eq: "?s =
    s\<lparr>currentQuestionIndex := clamp_spec (currentQuestionIndex s + d) 0 (int (length qs) - 1)\<rparr>"
    using Cons.prems by (rule navigate_eq)
  have "questions ?s = Some qs" "0 \<le> currentQuestionIndex ?s"
    "currentQuestionIndex ?s < int (length qs)" "uncaught ?s = uncaught s"
    using Cons.prems by (auto simp: eq clamp_spec_def)
  with Cons.IH [of ?s] show ?case by simp
qed

lemma step_index:
  assumes "questions s = Some qs" and "0 \<le> currentQuestionIndex s"
    and "currentQuestionIndex s < int (length qs)"
  shows "0 \<le> currentQuestionIndex (step B now e s) \<and>
    currentQuestionIndex (step B now e s) < int (length qs)"
  using assms
  by (cases e)
    (auto simp: step_def uiEvent_def handler_defs effect_defs handleSubmit_frame
      rerunEffect_frame Let_def split: option.splits)

lemma run_index:
  assumes "questions s = Some qs" and "0 \<le> currentQuestionIndex s"
    and "currentQuestionIndex s < int (length qs)"
  shows "0 \<le> currentQuestionIndex (run B es s) \<and>
    currentQuestionIndex (run B es s) < int (length qs)"
  using assms
proof (induction es arbitrary: s)
  case Nil
  then show ?case by simp
next
  case (Cons x es)
  obtain now e where x: "x = (now, e)" by (cases x)
  from step_index [OF Cons.prems, of B now e]
  have "0 \<le> currentQuestionIndex (run B es (step B now e s)) \<and>
    currentQuestionIndex (run B es (step B now e s)) < int (length qs)"
    using Cons.prems(1) by (intro Cons.IH) (simp_all add: step_questions)
  with x show ?case by simp
qed

text \<open>
  C7. Navigation clamps and never fails. On an exam screen whose index is in range, the
  Prev button is \<open>navigate (-1)\<close> and the Next button is \<open>navigate 1\<close>; \<open>navigate delta\<close>
  sets the index to \<open>clamp_spec (currentQuestionIndex + delta) 0 (length - 1)\<close>; and after
  any sequence of such calls, of any magnitudes, and after any sequence of events, the
  index is within \<open>0\<close> and \<open>length - 1\<close> and no error has been raised by navigating.
\<close>

theorem navigate_clamps:
  assumes "questions s = Some qs" and "0 \<le> currentQuestionIndex s"
    and "currentQuestionIndex s < int (length qs)"
  shows "prevQuestion s = navigate (- 1) s \<and> nextQuestion s = navigate 1 s \<and>
    currentQuestionIndex (navigate delta s)
      = clamp_spec (currentQuestionIndex s + delta) 0 (int (length qs) - 1) \<and>
    0 \<le> currentQuestionIndex (fold navigate deltas s) \<and>
    currentQuestionIndex (fold navigate deltas s) < int (length qs) \<and>
    uncaught (fold navigate deltas s) = uncaught s \<and>
    0 \<le> currentQuestionIndex (run B es s) \<and>
    currentQuestionIndex (run B es s) < int (length qs)"
proof -
  have "prevQuestion s = navigate (- 1) s" "nextQuestion s = navigate 1 s"
    by (simp_all add: navigate_def)
  moreover have "currentQuestionIndex (navigate delta s)
      = clamp_spec (currentQuestionIndex s + delta) 0 (int (length qs) - 1)"
    by (simp add: navigate_eq [OF assms])
  ultimately show ?thesis
    using fold_navigate [OF assms, of deltas] run_index [OF assms, of B es] by blast
qed

theorem navigate_clamps_witness:
  "questions demoState = Some demoQuestions \<and> 0 \<le> currentQuestionIndex demoState \<and>
   currentQuestionIndex demoState < int (length demoQuestions) \<and>
   currentQuestionIndex (navigate 100 demoState) = 2 \<and>
   currentQuestionIndex (navigate (- 100) demoState) = 0 \<and>
   currentQuestionIndex (navigate 1 demoState) = 1 \<and>
   0 \<le> currentQuestionIndex (fold navigate [5, - 1, - 7, 2] demoState) \<and>
   currentQuestionIndex (fold navigate [5, - 1, - 7, 2] demoState) < 3"
proof -
  have h: "questions demoState = Some demoQuestions" "0 \<le> currentQuestionIndex demoState"
    "currentQuestionIndex demoState < int (length demoQuestions)"
    by (simp_all add: demoState_eq demoQuestions_def)
  have i: "currentQuestionIndex demoState = 0" "int (length demoQuestions) = 3"
    by (simp_all add: demoState_eq demoQuestions_def)
  note t = navigate_clamps [OF h, where B = demoBrowser and es = "[]"
      and deltas = "[5, - 1, - 7, 2]"]
  have a: "currentQuestionIndex (navigate 100 demoState) = 2"
    "currentQuestionIndex (navigate (- 100) demoState) = 0"
    "currentQuestionIndex (navigate 1 demoState) = 1"
    using t [of 100] t [of "- 100"] t [of 1] by (simp_all add: i clamp_spec_def)
  have b: "0 \<le> currentQuestionIndex (fold navigate [5, - 1, - 7, 2] demoState)"
    "currentQuestionIndex (fold navigate [5, - 1, - 7, 2] demoState) < 3"
    using t [of 0] i(2) by simp_all
  from h a b show ?thesis by blast
qed

subsection \<open>Review marks\<close>

text \<open>
  C8. \<open>handleMarkForReview\<close> adds the id to the marked questions when it is absent and
  removes it when it is present, so that applying it twice to the same id gives back the
  original set of marked questions; when the id was absent, the whole state is back as
  it was, with the id still absent.
\<close>

theorem toggle_review_twice:
  "set (markedForReview (handleMarkForReview i s)) =
     (if i \<in> set (markedForReview s) then set (markedForReview s) - {i}
      else insert i (set (markedForReview s))) \<and>
   set (markedForReview (handleMarkForReview i (handleMarkForReview i s)))
     = set (markedForReview s) \<and>
   (i \<notin> set (markedForReview s) \<longrightarrow> handleMarkForReview i (handleMarkForReview i s) = s)"
proof -
  have absent: "filter (\<lambda>j. j \<noteq> i) (markedForReview s) = markedForReview s"
    if "i \<notin> set (markedForReview s)"
    using that by (simp add: filter_id_conv) blast
  show ?thesis
    by (auto simp: handleMarkForReview_def absent)
qed

theorem toggle_review_twice_witness:
  "5 \<notin> set (markedForReview demoState) \<and>
   markedForReview (handleMarkForReview 5 demoState) = [5] \<and>
   handleMarkForReview 5 (handleMarkForReview 5 demoState) = demoState \<and>
   5 \<notin> set (markedForReview (handleMarkForReview 5 (handleMarkForReview 5 demoState)))"
proof -
  have h: "5 \<notin> set (markedForReview demoState)" by (simp add: demoState_eq)
  have one: "markedForReview (handleMarkForReview 5 demoState) = [5]"
    by (simp add: handleMarkForReview_def demoState_eq)
  from toggle_review_twice [of 5 demoState] h
  have twice: "handleMarkForReview 5 (handleMarkForReview 5 demoState) = demoState" by blast
  from h one twice show ?thesis by simp
qed

subsection \<open>Answers\<close>

lemma clearResponse_current:
  "currentQuestion s = Some c \<Longrightarrow> clearResponse s = deleteAnswer (qid c) s"
  by (auto simp: clearResponse_def currentQuestion_def split: option.splits)

lemma currentQuestion_mem:
  "currentQuestion s = Some c \<Longrightarrow> questions s = Some qs \<Longrightarrow> c \<in> set qs"
  by (auto simp: currentQuestion_def split: if_splits)

lemma lastOp_mem: "lastOp_spec q ops = Some x \<Longrightarrow> x \<in> set ops \<and> opId x = q"
  by (induction ops) (auto split: option.splits if_splits)

lemma applyOp_answers:
  "answers (applyOp x s) q =
    (if opId x = q then (case x of SelectAnswer q' v \<Rightarrow> Some v | ClearAnswer q' \<Rightarrow> None)
     else answers s q)"
  by (cases x) (auto simp: handleAnswerSelect_def deleteAnswer_def)

lemma fold_applyOp_answers:
  "answers (fold applyOp ops s) q =
    (case lastOp_spec q ops of
       None \<Rightarrow> answers s q
     | Some (SelectAnswer q' v) \<Rightarrow> Some v
     | Some (ClearAnswer q') \<Rightarrow> None)"
proof (induction ops arbitrary: s)
  case Nil
  then show ?case by simp
next
  case (Cons x ops)
  show ?case
  proof (cases "lastOp_spec q ops")
    case None
    then show ?thesis by (simp add: Cons.IH applyOp_answers)
  next
    case (Some y)
    then show ?thesis by (simp add: Cons.IH)
  qed
qed

lemma fold_applyOp_valid:
  assumes "\<forall>x \<in> set ops. validOp_spec qs x" and "answers (fold applyOp ops s) q = Some v"
  shows "(lastOp_spec q ops = None \<and> answers s q = Some v) \<or>
    (\<exists>x \<in> set qs. qid x = q \<and> v \<in> set (options x))"
proof (cases "lastOp_spec q ops")
  case None
  with assms(2) show ?thesis by (simp add: fold_applyOp_answers)
next
  case (Some y)
  from lastOp_mem [OF Some] assms(1) have y: "validOp_spec qs y" "opId y = q" by auto
  from assms(2) Some have "y = SelectAnswer q v"
    using y(2) by (cases y) (simp_all add: fold_applyOp_answers)
  with y(1) show ?thesis by simp
qed

lemma step_answers:
  "answers (step B now e s) =
    (case currentQuestion s of
       None \<Rightarrow> answers s
     | Some c \<Rightarrow>
         (case e of
            ClickOption i \<Rightarrow>
              if i < length (options c) then (answers s)(qid c \<mapsto> options c ! i) else answers s
          | ClickClear \<Rightarrow> (answers s)(qid c := None)
          | _ \<Rightarrow> answers s))"
proof (cases "currentQuestion s")
  case None
  then show ?thesis
    by (cases e)
      (auto simp: step_def handleFullscreenChange_def handleVisibilityChange_def
        handleViolation_def tick_def toast_def handleSubmit_frame Let_def split: option.splits)
next
  case (Some c)
  then obtain qs where qs: "questions s = Some qs"
    by (auto simp: currentQuestion_def split: option.splits)
  show ?thesis
    using Some qs
    by (cases e)
      (auto simp: step_def uiEvent_def handler_defs effect_defs handleSubmit_frame
        rerunEffect_frame Let_def)
qed

lemma step_answers_valid:
  assumes "questions s = Some qs"
    and "\<forall>k v. answers s k = Some v \<longrightarrow> (\<exists>x \<in> set qs. qid x = k \<and> v \<in> set (options x))"
  shows "\<forall>k v. answers (step B now e s) k = Some v
    \<longrightarrow> (\<exists>x \<in> set qs. qid x = k \<and> v \<in> set (options x))"
proof (cases "currentQuestion s")
  case None
  with assms(2) show ?thesis by (simp add: step_answers)
next
  case (Some c)
  have c: "c \<in> set qs" using Some assms(1) by (rule currentQuestion_mem)
  show ?thesis
    using assms(2) c Some
    by (cases e) (auto simp: step_answers split: if_splits)
qed

lemma run_answers_valid:
  assumes "questions s = Some qs"
    and "\<forall>k v. answers s k = Some v \<longrightarrow> (\<exists>x \<in> set qs. qid x = k \<and> v \<in> set (options x))"
  shows "\<forall>k v. answers (run B es s) k = Some v
    \<longrightarrow> (\<exists>x \<in> set qs. qid x = k \<and> v \<in> set (options x))"
  using assms
proof (induction es arbitrary: s)
  case Nil
  then show ?case by simp
next
  case (Cons x es)
  obtain now e where x: "x = (now, e)" by (cases x)
  have "\<forall>k v. answers (run B es (step B now e s)) k = Some v
      \<longrightarrow> (\<exists>x \<in> set qs. qid x = k \<and> v \<in> set (options x))"
    using Cons.prems
    by (intro Cons.IH step_answers_valid) (simp_all add: step_questions)
  with x show ?case by simp
qed

text \<open>
  C4, as the code has it. The answers follow the last operation on each question: after
  a sequence of \<open>selectAnswer\<close> and \<open>clearAnswer\<close> calls, the entry of a question is
  the value of the last selection if a selection came last, absent if a clearing came
  last, and unchanged if no operation named the question. \<open>handleAnswerSelect\<close> stores
  the value it is given without looking at the options. The stored values are options
  of a question with that id when every selection passes one, and that is what the exam
  screen does: in every state reached from mounting by events, each stored answer is
  one of the options of a question with that id. \<open>clearResponse\<close> is \<open>clearAnswer\<close> of
  the current question.
\<close>

theorem answers_follow_last_operation:
  "answers (fold applyOp ops s) q =
     (case lastOp_spec q ops of
        None \<Rightarrow> answers s q
      | Some (SelectAnswer q' v') \<Rightarrow> Some v'
      | Some (ClearAnswer q') \<Rightarrow> None) \<and>
   answers (handleAnswerSelect q v s) q = Some v \<and>
   ((\<forall>x \<in> set ops. validOp_spec qs x) \<and> answers (fold applyOp ops s) q = Some v \<longrightarrow>
      (lastOp_spec q ops = None \<and> answers s q = Some v) \<or>
      (\<exists>x \<in> set qs. qid x = q \<and> v \<in> set (options x))) \<and>
   (questions (mount B p start fs ls ss) = Some qs \<and>
    answers (run B es (mount B p start fs ls ss)) q = Some v \<longrightarrow>
      (\<exists>x \<in> set qs. qid x = q \<and> v \<in> set (options x))) \<and>
   (currentQuestion s = Some c \<longrightarrow> clearResponse s = applyOp (ClearAnswer (qid c)) s)"
proof -
  have ui: "\<exists>x \<in> set qs. qid x = q \<and> v \<in> set (options x)"
    if "questions (mount B p start fs ls ss) = Some qs"
      and "answers (run B es (mount B p start fs ls ss)) q = Some v"
  proof -
    have "\<forall>k v. answers (run B es (mount B p start fs ls ss)) k = Some v
        \<longrightarrow> (\<exists>x \<in> set qs. qid x = k \<and> v \<in> set (options x))"
      using that(1) by (intro run_answers_valid) (simp_all add: mount_fields)
    with that(2) show ?thesis by blast
  qed
  have sel: "answers (handleAnswerSelect q v s) q = Some v"
    by (simp add: handleAnswerSelect_def)
  from fold_applyOp_answers [of ops s q] sel fold_applyOp_valid [of ops qs s q v] ui
    clearResponse_current [of s c]
  show ?thesis by (simp only: applyOp.simps) blast
qed

theorem answers_follow_last_operation_witness:
  "(\<forall>x \<in> set [SelectAnswer 1 ''1'', SelectAnswer 2 ''6'', ClearAnswer 1, SelectAnswer 1 ''3''].
      validOp_spec demoQuestions x) = True \<and>
   answers (fold applyOp
     [SelectAnswer 1 ''1'', SelectAnswer 2 ''6'', ClearAnswer 1, SelectAnswer 1 ''3''] demoState) 1
     = Some ''3'' \<and>
   answers (fold applyOp
     [SelectAnswer 1 ''1'', SelectAnswer 2 ''6'', ClearAnswer 2] demoState) 2 = None \<and>
   (\<exists>x \<in> set demoQuestions. qid x = 1 \<and> ''3'' \<in> set (options x)) \<and>
   questions (mount demoBrowser demoParams ''09:00'' True Map.empty demoSession)
     = Some demoQuestions \<and>
   answers (run demoBrowser [(''09:05'', ClickOption 2)] demoState) 1 = Some ''3'' \<and>
   currentQuestion demoState = Some (demoQuestions ! 0) \<and>
   clearResponse demoState = applyOp (ClearAnswer 1) demoState"
proof -
  let ?ops = "[SelectAnswer 1 ''1'', SelectAnswer 2 ''6'', ClearAnswer 1, SelectAnswer 1 ''3'']"
  have v: "\<forall>x \<in> set ?ops. validOp_spec demoQuestions x" by (simp add: demoQuestions_def)
  have m: "questions (mount demoBrowser demoParams ''09:00'' True Map.empty demoSession)
      = Some demoQuestions"
    by (simp add: demoState_def [symmetric] demoState_eq)
  have cur: "currentQuestion demoState = Some (demoQuestions ! 0)"
    by (simp add: currentQuestion_def demoState_eq demoQuestions_def)
  have id1: "qid (demoQuestions ! 0) = 1" by (simp add: demoQuestions_def)
  have a: "answers (fold applyOp ?ops demoState) 1 = Some ''3''"
    using answers_follow_last_operation [of ?ops demoState 1] by simp
  have b: "answers (fold applyOp
      [SelectAnswer 1 ''1'', SelectAnswer 2 ''6'', ClearAnswer 2] demoState) 2 = None"
    using answers_follow_last_operation
      [of "[SelectAnswer 1 ''1'', SelectAnswer 2 ''6'', ClearAnswer 2]" demoState 2]
    by simp
  have ex: "\<exists>x \<in> set demoQuestions. qid x = 1 \<and> ''3'' \<in> set (options x)"
    using answers_follow_last_operation
      [where ops = ?ops and s = demoState and q = 1 and v = "''3''" and qs = demoQuestions] v a
    by simp
  have ui: "answers (run demoBrowser [(''09:05'', ClickOption 2)] demoState) 1 = Some ''3''"
    by (simp add: step_answers cur id1) (simp add: demoQuestions_def demoState_eq)
  have clr: "clearResponse demoState = applyOp (ClearAnswer 1) demoState"
    using answers_follow_last_operation [where s = demoState and c = "demoQuestions ! 0"] cur id1
    by simp
  from v m cur a b ex ui clr show ?thesis by simp
qed

theorem answers_outside_options_counterexample:
  "questions demoState = Some demoQuestions \<and>
   \<not> validOp_spec demoQuestions (SelectAnswer 1 ''Z'') \<and>
   answers (handleAnswerSelect 1 ''Z'' demoState) 1 = Some ''Z''"
  by (simp add: demoState_eq handleAnswerSelect_def demoQuestions_def)

subsection \<open>After submission\<close>

lemma mutator_frame:
  "localStorage (handleAnswerSelect q v s) = localStorage s"
  "setItemLog (handleAnswerSelect q v s) = setItemLog s"
  "timeouts (handleAnswerSelect q v s) = timeouts s"
  "isSubmitting (handleAnswerSelect q v s) = isSubmitting s"
  "localStorage (clearResponse s) = localStorage s"
  "setItemLog (clearResponse s) = setItemLog s"
  "timeouts (clearResponse s) = timeouts s"
  "isSubmitting (clearResponse s) = isSubmitting s"
  "localStorage (handleMarkForReview q s) = localStorage s"
  "setItemLog (handleMarkForReview q s) = setItemLog s"
  "timeouts (handleMarkForReview q s) = timeouts s"
  "isSubmitting (handleMarkForReview q s) = isSubmitting s"
  "localStorage (prevQuestion s) = localStorage s"
  "setItemLog (prevQuestion s) = setItemLog s"
  "timeouts (prevQuestion s) = timeouts s"
  "isSubmitting (prevQuestion s) = isSubmitting s"
  "localStorage (nextQuestion s) = localStorage s"
  "setItemLog (nextQuestion s) = setItemLog s"
  "timeouts (nextQuestion s) = timeouts s"
  "isSubmitting (nextQuestion s) = isSubmitting s"
  by (simp_all add: handler_defs split: option.splits)

text \<open>
  C2, as the code has it. No mutator reads the latch: after submission
  \<open>handleAnswerSelect\<close> still stores the answer, and the other mutators still act on
  \<open>markedForReview\<close> and \<open>currentQuestionIndex\<close>. What they leave alone, before and
  after submission, is the submission: the stored snapshot, the log of snapshot writes,
  the scheduled navigation and the latch. Once the latch is set, no event changes any
  of these.
\<close>

theorem mutators_keep_submission:
  "answers (handleAnswerSelect q v s) q = Some v \<and>
   localStorage (handleAnswerSelect q v s) = localStorage s \<and>
   setItemLog (handleAnswerSelect q v s) = setItemLog s \<and>
   timeouts (handleAnswerSelect q v s) = timeouts s \<and>
   isSubmitting (handleAnswerSelect q v s) = isSubmitting s \<and>
   localStorage (clearResponse s) = localStorage s \<and>
   setItemLog (clearResponse s) = setItemLog s \<and>
   timeouts (clearResponse s) = timeouts s \<and>
   isSubmitting (clearResponse s) = isSubmitting s \<and>
   localStorage (handleMarkForReview q s) = localStorage s \<and>
   setItemLog (handleMarkForReview q s) = setItemLog s \<and>
   timeouts (handleMarkForReview q s) = timeouts s \<and>
   isSubmitting (handleMarkForReview q s) = isSubmitting s \<and>
   localStorage (prevQuestion s) = localStorage s \<and>
   setItemLog (prevQuestion s) = setItemLog s \<and>
   timeouts (prevQuestion s) = timeouts s \<and>
   isSubmitting (prevQuestion s) = isSubmitting s \<and>
   localStorage (nextQuestion s) = localStorage s \<and>
   setItemLog (nextQuestion s) = setItemLog s \<and>
   timeouts (nextQuestion s) = timeouts s \<and>
   isSubmitting (nextQuestion s) = isSubmitting s \<and>
   (isSubmitting s \<longrightarrow>
      isSubmitting (run B es s) \<and> localStorage (run B es s) = localStorage s \<and>
      setItemLog (run B es s) = setItemLog s \<and> timeouts (run B es s) = timeouts s)"
proof -
  have "answers (handleAnswerSelect q v s) q = Some v"
    by (simp add: handleAnswerSelect_def)
  with run_submitted [of s B es] show ?thesis
    by (simp add: mutator_frame)
qed

theorem mutators_keep_submission_witness:
  "isSubmitting demoSubmitted \<and>
   answers (handleAnswerSelect 1 ''2'' demoSubmitted) 1 = Some ''2'' \<and>
   localStorage (run demoBrowser
       [(''09:31'', ClickOption 1), (''09:32'', ClickMark), (''09:33'', ClickNext)] demoSubmitted)
     = [''lastExamData'' \<mapsto> ''09:30''] \<and>
   setItemLog (run demoBrowser
       [(''09:31'', ClickOption 1), (''09:32'', ClickMark), (''09:33'', ClickNext)] demoSubmitted)
     = [(''lastExamData'', ''09:30'')] \<and>
   timeouts (run demoBrowser
       [(''09:31'', ClickOption 1), (''09:32'', ClickMark), (''09:33'', ClickNext)] demoSubmitted)
     = [(100, ''/results'')]"
proof -
  have h: "isSubmitting demoSubmitted" "localStorage demoSubmitted = [''lastExamData'' \<mapsto> ''09:30'']"
    "setItemLog demoSubmitted = [(''lastExamData'', ''09:30'')]"
    "timeouts demoSubmitted = [(100, ''/results'')]"
    by (simp_all add: demoSubmitted_eq demoState_eq)
  note t = mutators_keep_submission [where s = demoSubmitted and B = demoBrowser and q = 1
      and v = "''2''"
      and es = "[(''09:31'', ClickOption 1), (''09:32'', ClickMark), (''09:33'', ClickNext)]"]
  from t have a: "answers (handleAnswerSelect 1 ''2'' demoSubmitted) 1 = Some ''2''" by blast
  from t h(1) have b:
    "localStorage (run demoBrowser
       [(''09:31'', ClickOption 1), (''09:32'', ClickMark), (''09:33'', ClickNext)] demoSubmitted)
      = localStorage demoSubmitted"
    "setItemLog (run demoBrowser
       [(''09:31'', ClickOption 1), (''09:32'', ClickMark), (''09:33'', ClickNext)] demoSubmitted)
      = setItemLog demoSubmitted"
    "timeouts (run demoBrowser
       [(''09:31'', ClickOption 1), (''09:32'', ClickMark), (''09:33'', ClickNext)] demoSubmitted)
      = timeouts demoSubmitted"
    by blast+
  from h a b show ?thesis by simp
qed

theorem mutators_after_submit_counterexample:
  "isSubmitting demoSubmitted \<and>
   answers demoSubmitted 1 = None \<and>
   answers (handleAnswerSelect 1 ''2'' demoSubmitted) 1 = Some ''2'' \<and>
   answers (run demoBrowser [(''09:31'', ClickOption 1)] demoSubmitted) 1 = Some ''2'' \<and>
   markedForReview demoSubmitted = [] \<and>
   markedForReview (handleMarkForReview 1 demoSubmitted) = [1] \<and>
   currentQuestionIndex demoSubmitted = 0 \<and>
   currentQuestionIndex (nextQuestion demoSubmitted) = 1"
  by (simp add: demoSubmitted_eq demoState_eq handler_defs step_def uiEvent_def
      currentQuestion_def demoQuestions_def rerunEffect_frame)

text \<open>
  C3, as the code has it. \<open>handleViolation\<close> does not read the latch: a violation that
  arrives after submission still adds one to the count and, while the count is below
  \<open>MAX_VIOLATIONS\<close>, still opens the warning dialog with its message. The latch stops
  the second submission only: no snapshot is written and no navigation is scheduled.
\<close>

theorem violation_after_submit:
  assumes "isSubmitting s"
  shows "violationCount (handleViolation B now cause s) = violationCount s + 1 \<and>
    isViolationDialogOpen (handleViolation B now cause s)
      = (violationCount s + 1 < MAX_VIOLATIONS \<or> isViolationDialogOpen s) \<and>
    violationMessage (handleViolation B now cause s)
      = (if violationCount s + 1 < MAX_VIOLATIONS
         then cause @ ''. You have ''
           @ numberToString (MAX_VIOLATIONS - (violationCount s + 1)) @ '' warning(s) left.''
         else violationMessage s) \<and>
    isSubmitting (handleViolation B now cause s) \<and>
    localStorage (handleViolation B now cause s) = localStorage s \<and>
    setItemLog (handleViolation B now cause s) = setItemLog s \<and>
    timeouts (handleViolation B now cause s) = timeouts s"
  using assms
  by (simp add: handleViolation_def Let_def toast_def handleSubmit_latched)

theorem violation_after_submit_witness:
  "isSubmitting demoSubmitted \<and>
   violationCount (handleViolation demoBrowser ''09:31'' ''You have exited fullscreen mode''
     demoSubmitted) = 1 \<and>
   isViolationDialogOpen (handleViolation demoBrowser ''09:31''
     ''You have exited fullscreen mode'' demoSubmitted) \<and>
   setItemLog (handleViolation demoBrowser ''09:31'' ''You have exited fullscreen mode''
     demoSubmitted) = [(''lastExamData'', ''09:30'')] \<and>
   timeouts (handleViolation demoBrowser ''09:31'' ''You have exited fullscreen mode''
     demoSubmitted) = [(100, ''/results'')]"
proof -
  have h: "isSubmitting demoSubmitted" by (simp add: demoSubmitted_eq)
  have v: "violationCount demoSubmitted = 0" "setItemLog demoSubmitted = [(''lastExamData'', ''09:30'')]"
    "timeouts demoSubmitted = [(100, ''/results'')]"
    by (simp_all add: demoSubmitted_eq demoState_eq)
  from violation_after_submit [OF h, of demoBrowser "''09:31''"
      "''You have exited fullscreen mode''"]
  show ?thesis using h v by (simp add: MAX_VIOLATIONS_def)
qed

theorem violation_after_submit_counterexample:
  "isSubmitting demoSubmitted \<and>
   violationCount demoSubmitted = 0 \<and>
   isViolationDialogOpen demoSubmitted = False \<and>
   violationCount (run demoBrowser [(''09:31'', VisibilityChange True)] demoSubmitted) = 1 \<and>
   isViolationDialogOpen (run demoBrowser [(''09:31'', VisibilityChange True)] demoSubmitted) \<and>
   violationCount (run demoBrowser [(''09:31'', FullscreenChange False)] demoSubmitted) = 1 \<and>
   isViolationDialogOpen (run demoBrowser [(''09:31'', FullscreenChange False)] demoSubmitted)"
  by (simp add: demoSubmitted_eq demoState_eq step_def handleVisibilityChange_def
      handleFullscreenChange_def handleViolation_def MAX_VIOLATIONS_def Let_def)

end
